theory Spec2Isabelle
  imports Main "HOL-Library.Char_ord" "HOL-Library.List_Lexorder" "HOL-Library.Multiset"
    "HOL-Library.Sublist"
begin

section \<open>raml-to-markdown: \<^verbatim>\<open>src/libs/index.js\<close>\<close>

text \<open>
  A shallow embedding of the two exported operations \<^verbatim>\<open>parse\<close> and \<^verbatim>\<open>render\<close>.
  Promises are modelled by their outcome: a rejection is \<open>Inl e\<close>, a resolution \<open>Inr v\<close>.
  In-place mutation of the parsed documents is explicit state passing: every operation
  that mutates a document returns the updated document.
  JavaScript strings are modelled as \<open>string\<close>; a \<open>char\<close> stands for one code unit.

  The collaborators outside the repository are parameters: the RAML parser
  (\<^verbatim>\<open>raml2obj.parse\<close>), the template engine (\<^verbatim>\<open>nunjucks.render\<close>), the collation behind
  \<^verbatim>\<open>String.prototype.localeCompare\<close> and the file system.
  The functions of \<^verbatim>\<open>./helper.js\<close> are not part of the sources at hand; each one is
  modelled from the specification and marked so.
\<close>

subsection \<open>Errors\<close>

datatype error = NotFoundError | ParseError | TemplateError | IOError | TypeError

subsection \<open>Parsed documents\<close>

text \<open>
  A property descriptor carries at least a \<^verbatim>\<open>displayName\<close>; the second field stands for
  the rest of the descriptor, so that descriptors with equal names can differ.
\<close>

datatype property = Property (p_displayName: string) (p_rest: string)

datatype items_obj = Items (i_properties: "property list option")

text \<open>
  One node type serves documents, resources, methods, responses and bodies, as in the
  object tree of the parser. An absent (or \<^verbatim>\<open>null\<close>) field is \<open>None\<close>. Every node
  has a \<^verbatim>\<open>displayName\<close> string: the source reads it of resources only, and of every
  resource it names a file after.
\<close>

datatype node = Node
  (displayName: string)
  (uniqueId: "string option")
  (properties: "property list option")
  (items: "items_obj option")
  (resources: "node list option")
  (methods: "node list option")
  (responses: "node list option")
  (body: "node list option")

fun set_properties :: "property list option \<Rightarrow> node \<Rightarrow> node" where
  "set_properties v (Node dn uid ps it rs ms rsp bd) = Node dn uid v it rs ms rsp bd"

fun set_items :: "items_obj option \<Rightarrow> node \<Rightarrow> node" where
  "set_items v (Node dn uid ps it rs ms rsp bd) = Node dn uid ps v rs ms rsp bd"

fun set_resources :: "node list option \<Rightarrow> node \<Rightarrow> node" where
  "set_resources v (Node dn uid ps it rs ms rsp bd) = Node dn uid ps it v ms rsp bd"

text \<open>The container keys of \<^verbatim>\<open>deepKeys\<close> (line 241).\<close>

datatype deep_key = Resources | Methods | Responses | Body

fun get_key :: "deep_key \<Rightarrow> node \<Rightarrow> node list option" where
  "get_key Resources n = resources n"
| "get_key Methods n = methods n"
| "get_key Responses n = responses n"
| "get_key Body n = body n"

fun set_key :: "deep_key \<Rightarrow> node list option \<Rightarrow> node \<Rightarrow> node" where
  "set_key Resources v (Node dn uid ps it rs ms rsp bd) = Node dn uid ps it v ms rsp bd"
| "set_key Methods v (Node dn uid ps it rs ms rsp bd) = Node dn uid ps it rs v rsp bd"
| "set_key Responses v (Node dn uid ps it rs ms rsp bd) = Node dn uid ps it rs ms v bd"
| "set_key Body v (Node dn uid ps it rs ms rsp bd) = Node dn uid ps it rs ms rsp v"

definition deepKeys :: "deep_key list" where
  "deepKeys = [Resources, Methods, Responses, Body]"

subsection \<open>\<^verbatim>\<open>Array.prototype.sort\<close> and the comparators of the source\<close>

text \<open>
  \<^verbatim>\<open>Array.prototype.sort\<close> with a comparator, as a stable insertion sort: an element
  is placed before the first element of the sorted rest that it does not compare greater
  than. For a consistent comparator this is the stable sort that ECMAScript requires
  since its 2019 edition; for any other comparator the order is up to the engine.
\<close>

fun insert_by :: "('a \<Rightarrow> 'a \<Rightarrow> int) \<Rightarrow> 'a \<Rightarrow> 'a list \<Rightarrow> 'a list" where
  "insert_by cmp x [] = [x]"
| "insert_by cmp x (y # ys) = (if cmp x y \<le> 0 then x # y # ys else y # insert_by cmp x ys)"

definition js_sort :: "('a \<Rightarrow> 'a \<Rightarrow> int) \<Rightarrow> 'a list \<Rightarrow> 'a list" where
  "js_sort cmp xs = foldr (insert_by cmp) xs []"

text \<open>
  \<^verbatim>\<open>a.localeCompare(b)\<close>: the host's collation, a parameter. It is given as a collation
  key \<open>ck\<close> into a linear order; the comparison is negative, zero or positive as the
  keys compare.
\<close>

definition localeCompare :: "(string \<Rightarrow> 'k::linorder) \<Rightarrow> string \<Rightarrow> string \<Rightarrow> int" where
  "localeCompare ck a b = (if ck a < ck b then - 1 else if ck b < ck a then 1 else 0)"

subsection \<open>The tree normaliser of \<^verbatim>\<open>parse\<close> (lines 236-252)\<close>

text \<open>
  The per-node callback (lines 243-249):
  \<^verbatim>\<open>var props = body.properties || body.items.properties;
  if(props) props.sort((a, b) => a.displayName.localeCompare(b.displayName));\<close>
  An array is truthy, also when empty. When \<^verbatim>\<open>properties\<close> is absent the right operand
  is evaluated, and reading \<^verbatim>\<open>.properties\<close> of an absent \<^verbatim>\<open>items\<close> throws a TypeError.
\<close>

definition sort_props :: "(string \<Rightarrow> 'k::linorder) \<Rightarrow> property list \<Rightarrow> property list" where
  "sort_props ck props = js_sort (\<lambda>a b. localeCompare ck (p_displayName a) (p_displayName b)) props"

definition callback :: "(string \<Rightarrow> 'k::linorder) \<Rightarrow> node \<Rightarrow> error + node" where
  "callback ck body_node =
     (case properties body_node of
        Some props \<Rightarrow> Inr (set_properties (Some (sort_props ck props)) body_node)
      | None \<Rightarrow>
          (case items body_node of
             None \<Rightarrow> Inl TypeError
           | Some it \<Rightarrow>
               (case i_properties it of
                  None \<Rightarrow> Inr body_node
                | Some props \<Rightarrow>
                    Inr (set_items (Some (Items (Some (sort_props ck props)))) body_node))))"

lemma get_key_size: "get_key k n = Some kids \<Longrightarrow> size_list size kids < size n"
  by (cases n; cases k) auto

text \<open>
  Modelled from the spec: \<^verbatim>\<open>helper.recursiveEach(obj, deepKeys, callback)\<close> is missing
  from the sources. The specification describes a generic tree walk over a declared list
  of child keys with a per-node visitor: the callback is invoked at every visited node,
  the top-level documents included, and the walk descends through every container key
  the node has. A callback that throws ends the walk with its error.
  The callback mutates the node in place; here it returns the updated node, and the
  containers are read from the node as it was before the callback (the callback of
  \<^verbatim>\<open>parse\<close> does not touch them).
\<close>

function (sequential) recursiveEach ::
    "node list \<Rightarrow> deep_key list \<Rightarrow> (node \<Rightarrow> error + node) \<Rightarrow> error + node list"
  and descend ::
    "node \<Rightarrow> deep_key list \<Rightarrow> deep_key list \<Rightarrow> (node \<Rightarrow> error + node) \<Rightarrow> node
       \<Rightarrow> error + node"
where
  "recursiveEach [] dks cb = Inr []"
| "recursiveEach (item # rest) dks cb =
     (case cb item of
        Inl e \<Rightarrow> Inl e
      | Inr item' \<Rightarrow>
          (case descend item dks dks cb item' of
             Inl e \<Rightarrow> Inl e
           | Inr item'' \<Rightarrow>
               (case recursiveEach rest dks cb of
                  Inl e \<Rightarrow> Inl e
                | Inr rest' \<Rightarrow> Inr (item'' # rest'))))"
| "descend item dks [] cb acc = Inr acc"
| "descend item dks (key # keys) cb acc =
     (case get_key key item of
        None \<Rightarrow> descend item dks keys cb acc
      | Some kids \<Rightarrow>
          (case recursiveEach kids dks cb of
             Inl e \<Rightarrow> Inl e
           | Inr kids' \<Rightarrow> descend item dks keys cb (set_key key (Some kids') acc)))"
  by pat_completeness auto
termination
  by (relation "measures
        [\<lambda>x. case x of Inl (ns, _, _) \<Rightarrow> size_list size ns | Inr (n, _, _, _, _) \<Rightarrow> size n,
         \<lambda>x. case x of Inl _ \<Rightarrow> 0 | Inr (_, _, ks, _, _) \<Rightarrow> Suc (length ks)]")
     (auto dest: get_key_size)

text \<open>
  Modelled from the spec: \<^verbatim>\<open>helper.unwindArray\<close> is missing from the sources; it
  flattens the per-path results into one sequence, outer order first, then inner order.
\<close>

definition unwindArray :: "'a list list \<Rightarrow> 'a list" where
  "unwindArray xss = concat xss"

text \<open>
  The continuation of \<^verbatim>\<open>parse\<close> (lines 236-252). The input content filter is a function
  from documents to documents, or \<^verbatim>\<open>null\<close>.
\<close>

definition normalize ::
    "(string \<Rightarrow> 'k::linorder) \<Rightarrow> (node \<Rightarrow> node) option \<Rightarrow> node list list \<Rightarrow> error + node list" where
  "normalize ck contentFilter its =
     (let relaxed = unwindArray its;
          relaxed = (case contentFilter of None \<Rightarrow> relaxed | Some f \<Rightarrow> map f relaxed)
      in recursiveEach relaxed deepKeys (callback ck))"

subsection \<open>Regular expressions\<close>

text \<open>
  The fragment of JavaScript regular expressions that the pattern of the source needs:
  literal characters, \<^verbatim>\<open>.\<close> (any code unit but a line terminator), a backslash escape
  (the escaped character taken literally) and a final \<^verbatim>\<open>$\<close> (end of input, no flags).
  \<open>re_compile\<close> reads the pattern text that \<^verbatim>\<open>new RegExp\<close> receives.
\<close>

datatype re_atom = AnyChar | Lit char

datatype regexp = RegExp (re_atoms: "re_atom list") (re_end_anchor: bool)

fun re_compile :: "string \<Rightarrow> re_atom list \<times> bool" where
  "re_compile [] = ([], False)"
| "re_compile [c] =
     (if c = CHR ''$'' then ([], True)
      else if c = CHR ''.'' then ([AnyChar], False)
      else ([Lit c], False))"
| "re_compile (c # d # cs) =
     (if c = CHR 0x5C then (case re_compile cs of (as, e) \<Rightarrow> (Lit d # as, e))
      else (case re_compile (d # cs) of
              (as, e) \<Rightarrow> ((if c = CHR ''.'' then AnyChar else Lit c) # as, e)))"

definition new_RegExp :: "string \<Rightarrow> regexp" where
  "new_RegExp src = (case re_compile src of (as, e) \<Rightarrow> RegExp as e)"

definition line_terminator :: "char \<Rightarrow> bool" where
  "line_terminator c = (c = CHR 0x0A \<or> c = CHR 0x0D)"

fun atom_matches :: "re_atom \<Rightarrow> char \<Rightarrow> bool" where
  "atom_matches AnyChar c = (\<not> line_terminator c)"
| "atom_matches (Lit l) c = (c = l)"

fun match_here :: "re_atom list \<Rightarrow> bool \<Rightarrow> string \<Rightarrow> bool" where
  "match_here [] anchored s = (if anchored then s = [] else True)"
| "match_here (a # as) anchored [] = False"
| "match_here (a # as) anchored (c # cs) = (atom_matches a c \<and> match_here as anchored cs)"

fun match_from :: "re_atom list \<Rightarrow> bool \<Rightarrow> string \<Rightarrow> bool" where
  "match_from as anchored [] = match_here as anchored []"
| "match_from as anchored (c # cs) =
     (match_here as anchored (c # cs) \<or> match_from as anchored cs)"

text \<open>\<^verbatim>\<open>re.test(s)\<close>: the pattern matches somewhere in \<open>s\<close>.\<close>

definition RegExp_test :: "regexp \<Rightarrow> string \<Rightarrow> bool" where
  "RegExp_test re s = match_from (re_atoms re) (re_end_anchor re) s"

subsection \<open>Configuration (lines 14-71)\<close>

datatype OutputType = ReturnOnly | StdOut | File

datatype FileSplitting = AllInOne | OnePerResource | OnePerResourceVersioning

text \<open>\<^verbatim>\<open>input.fileFilter\<close> is a regular expression object or a function.\<close>

datatype file_filter = RegExpFilter regexp | FunctionFilter "string \<Rightarrow> bool"

text \<open>
  What an output content filter returns: a string, or one of the falsy values that the
  dispatcher guards against. The empty string is falsy as well.
\<close>

datatype jsval = JUndefined | JNull | JFalse | JStr string

fun truthy :: "jsval \<Rightarrow> bool" where
  "truthy (JStr s) = (s \<noteq> [])"
| "truthy _ = False"

text \<open>The merged configuration; a field \<open>input_x\<close> is \<^verbatim>\<open>config.input.x\<close>.\<close>

record config =
  input_paths :: "string list"
  input_recursive :: bool
  input_fileFilter :: file_filter
  input_templateFile :: string
  input_homeTemplateFile :: "string option"
  input_contentFilter :: "(node \<Rightarrow> node) option"
  output_type :: OutputType
  output_file_splitting :: FileSplitting
  output_file_path :: "string option"
  output_file_extension :: string
  output_contentFilter :: "(string \<Rightarrow> jsval) option"

text \<open>
  The default output content filter, \<^verbatim>\<open>item => item.replace(/\n{3,}/g, "\n\n")\<close>:
  every maximal run of three or more line feeds becomes two. The first argument counts
  the line feeds of the run being read.
\<close>

fun collapse_newlines :: "nat \<Rightarrow> string \<Rightarrow> string" where
  "collapse_newlines n [] = replicate (if 3 \<le> n then 2 else n) (CHR 0x0A)"
| "collapse_newlines n (c # cs) =
     (if c = CHR 0x0A then collapse_newlines (Suc n) cs
      else replicate (if 3 \<le> n then 2 else n) (CHR 0x0A) @ c # collapse_newlines 0 cs)"

text \<open>
  \<^verbatim>\<open>DefaultConfig\<close> (lines 54-71). The pattern is written \<^verbatim>\<open>new RegExp('\.raml$')\<close>; in a
  JavaScript string literal \<^verbatim>\<open>\.\<close> is the single character \<^verbatim>\<open>.\<close>, so the constructor
  receives the six characters \<^verbatim>\<open>.raml$\<close>. The argument is \<^verbatim>\<open>__dirname\<close>.
\<close>

definition DefaultConfig :: "string \<Rightarrow> config" where
  "DefaultConfig dirname =
     \<lparr> input_paths = [],
       input_recursive = False,
       input_fileFilter = RegExpFilter (new_RegExp ''.raml$''),
       input_templateFile = dirname @ ''/../templates/index.njk'',
       input_homeTemplateFile = None,
       input_contentFilter = None,
       output_type = ReturnOnly,
       output_file_splitting = AllInOne,
       output_file_path = None,
       output_file_extension = ''.md'',
       output_contentFilter = Some (\<lambda>item. JStr (collapse_newlines 0 item)) \<rparr>"

text \<open>
  The caller's configuration: every field may be omitted (\<open>None\<close>). A nullable field
  that is given may be given as \<^verbatim>\<open>null\<close> (\<open>Some None\<close>).
\<close>

record user_config =
  u_input_paths :: "string list option"
  u_input_recursive :: "bool option"
  u_input_fileFilter :: "file_filter option"
  u_input_templateFile :: "string option"
  u_input_homeTemplateFile :: "string option"
  u_input_contentFilter :: "(node \<Rightarrow> node) option option"
  u_output_type :: "OutputType option"
  u_output_file_splitting :: "FileSplitting option"
  u_output_file_path :: "string option option"
  u_output_file_extension :: "string option"
  u_output_contentFilter :: "(string \<Rightarrow> jsval) option option"

definition no_config :: user_config where
  "no_config =
     \<lparr> u_input_paths = None, u_input_recursive = None, u_input_fileFilter = None,
       u_input_templateFile = None, u_input_homeTemplateFile = None,
       u_input_contentFilter = None, u_output_type = None, u_output_file_splitting = None,
       u_output_file_path = None, u_output_file_extension = None,
       u_output_contentFilter = None \<rparr>"

text \<open>
  \<^verbatim>\<open>extend(true, { }, this.DefaultConfig, config)\<close>: a field the caller gives replaces
  the default, a field the caller omits keeps it.
\<close>

definition extend_config :: "config \<Rightarrow> user_config \<Rightarrow> config" where
  "extend_config d u =
     \<lparr> input_paths = (case u_input_paths u of None \<Rightarrow> input_paths d | Some v \<Rightarrow> v),
       input_recursive = (case u_input_recursive u of None \<Rightarrow> input_recursive d | Some v \<Rightarrow> v),
       input_fileFilter = (case u_input_fileFilter u of None \<Rightarrow> input_fileFilter d | Some v \<Rightarrow> v),
       input_templateFile =
         (case u_input_templateFile u of None \<Rightarrow> input_templateFile d | Some v \<Rightarrow> v),
       input_homeTemplateFile =
         (case u_input_homeTemplateFile u of None \<Rightarrow> input_homeTemplateFile d | Some v \<Rightarrow> Some v),
       input_contentFilter =
         (case u_input_contentFilter u of None \<Rightarrow> input_contentFilter d | Some v \<Rightarrow> v),
       output_type = (case u_output_type u of None \<Rightarrow> output_type d | Some v \<Rightarrow> v),
       output_file_splitting =
         (case u_output_file_splitting u of None \<Rightarrow> output_file_splitting d | Some v \<Rightarrow> v),
       output_file_path =
         (case u_output_file_path u of None \<Rightarrow> output_file_path d | Some v \<Rightarrow> v),
       output_file_extension =
         (case u_output_file_extension u of None \<Rightarrow> output_file_extension d | Some v \<Rightarrow> v),
       output_contentFilter =
         (case u_output_contentFilter u of None \<Rightarrow> output_contentFilter d | Some v \<Rightarrow> v) \<rparr>"

subsection \<open>Paths\<close>

text \<open>
  A resolved path is the list of its components below the root. \<open>split_on\<close> cuts a
  path string at the separator; \<open>normalise\<close> drops empty and \<^verbatim>\<open>.\<close> components and lets
  \<^verbatim>\<open>..\<close> remove the component before it (at the root it is dropped), as
  \<^verbatim>\<open>path.resolve\<close> and \<^verbatim>\<open>path.join\<close> do on an absolute POSIX path.
\<close>

fun split_on :: "char \<Rightarrow> string \<Rightarrow> string list" where
  "split_on d [] = [[]]"
| "split_on d (c # cs) =
     (if c = d then [] # split_on d cs
      else (case split_on d cs of [] \<Rightarrow> [[c]] | w # ws \<Rightarrow> (c # w) # ws))"

fun normalise :: "string list \<Rightarrow> string list \<Rightarrow> string list" where
  "normalise stack [] = rev stack"
| "normalise stack (c # cs) =
     (if c = [] \<or> c = ''.'' then normalise stack cs
      else if c = ''..'' then normalise (case stack of [] \<Rightarrow> [] | _ # st \<Rightarrow> st) cs
      else normalise (c # stack) cs)"

text \<open>\<^verbatim>\<open>path.resolve(p)\<close> with the working directory \<open>cwd\<close> (a resolved path).\<close>

definition path_resolve :: "string list \<Rightarrow> string \<Rightarrow> string list" where
  "path_resolve cwd p =
     (case p of
        [] \<Rightarrow> cwd
      | c # _ \<Rightarrow> normalise (if c = CHR ''/'' then [] else rev cwd) (split_on (CHR ''/'') p))"

text \<open>\<^verbatim>\<open>path.join(base, name)\<close> for a resolved \<open>base\<close>.\<close>

definition path_join :: "string list \<Rightarrow> string \<Rightarrow> string list" where
  "path_join base name = normalise (rev base) (split_on (CHR ''/'') name)"

subsection \<open>The file system read by \<^verbatim>\<open>parse\<close>\<close>

datatype fsentry = FileEntry | DirEntry "(string \<times> fsentry) list"

fun fs_lookup :: "fsentry \<Rightarrow> string list \<Rightarrow> fsentry option" where
  "fs_lookup e [] = Some e"
| "fs_lookup e (c # cs) =
     (case e of
        FileEntry \<Rightarrow> None
      | DirEntry es \<Rightarrow> (case map_of es c of None \<Rightarrow> None | Some e' \<Rightarrow> fs_lookup e' cs))"

text \<open>
  The environment of a call: the directory tree under the root, the working directory,
  \<^verbatim>\<open>__dirname\<close>, and the two libraries. \<^verbatim>\<open>raml2obj.parse(file)\<close> resolves with a
  document or rejects; \<^verbatim>\<open>nunjucks.render(template, context)\<close> returns the text or throws.
\<close>

record env =
  fs_root :: fsentry
  cwd :: "string list"
  dirname :: string
  raml2obj_parse :: "string \<Rightarrow> error + node"
  nunjucks_render :: "string list \<Rightarrow> node \<Rightarrow> error + string"

text \<open>
  Modelled from the spec: \<^verbatim>\<open>helper.listFiles(path, recursive, filter)\<close> is missing from
  the sources. A path that does not exist fails with a not-found error; a file is listed
  when the filter accepts it; the entries of a directory are listed in order, a file
  when the filter accepts it, a sub-directory only when \<open>recursive\<close> holds.
\<close>

fun list_entries :: "bool \<Rightarrow> (string \<Rightarrow> bool) \<Rightarrow> string \<Rightarrow> (string \<times> fsentry) list \<Rightarrow> string list" where
  "list_entries recursive accept dir [] = []"
| "list_entries recursive accept dir ((name, FileEntry) # es) =
     (if accept (dir @ ''/'' @ name) then [dir @ ''/'' @ name] else [])
       @ list_entries recursive accept dir es"
| "list_entries recursive accept dir ((name, DirEntry sub) # es) =
     (if recursive then list_entries recursive accept (dir @ ''/'' @ name) sub else [])
       @ list_entries recursive accept dir es"

definition listFiles :: "env \<Rightarrow> string \<Rightarrow> bool \<Rightarrow> (string \<Rightarrow> bool) \<Rightarrow> error + string list" where
  "listFiles env path recursive accept =
     (case fs_lookup (fs_root env) (path_resolve (cwd env) path) of
        None \<Rightarrow> Inl NotFoundError
      | Some FileEntry \<Rightarrow> Inr (if accept path then [path] else [])
      | Some (DirEntry es) \<Rightarrow> Inr (list_entries recursive accept path es))"

subsection \<open>\<^verbatim>\<open>parse\<close> (lines 212-253)\<close>

text \<open>
  \<^verbatim>\<open>Promise.all\<close> over outcomes that are known: it rejects with the first rejection in
  order and resolves with all the values otherwise.
\<close>

fun promise_all :: "(error + 'a) list \<Rightarrow> error + 'a list" where
  "promise_all [] = Inr []"
| "promise_all (Inl e # ps) = Inl e"
| "promise_all (Inr v # ps) = (case promise_all ps of Inl e \<Rightarrow> Inl e | Inr vs \<Rightarrow> Inr (v # vs))"

text \<open>
  Lines 222-225: a regular expression (\<^verbatim>\<open>typeof fileFilter === 'object'\<close>) is wrapped
  into a predicate on paths; a function is used as it is.
\<close>

definition fileFilter_predicate :: "config \<Rightarrow> string \<Rightarrow> bool" where
  "fileFilter_predicate config =
     (case input_fileFilter config of
        RegExpFilter re \<Rightarrow> (\<lambda>path. RegExp_test re path)
      | FunctionFilter f \<Rightarrow> f)"

text \<open>
  The function mapped over \<^verbatim>\<open>config.input.paths\<close> (lines 218-235). An error thrown
  while listing is caught and becomes a promise that is rejected from the start (\<open>Inl\<close>);
  otherwise the result is the list of the parses that were started, each with its
  eventual outcome.
\<close>

definition load_path :: "env \<Rightarrow> config \<Rightarrow> string \<Rightarrow> error + (error + node) list" where
  "load_path env config path =
     (let fileFilter = fileFilter_predicate config
      in case listFiles env path (input_recursive config) fileFilter of
           Inl e \<Rightarrow> Inl e
         | Inr files \<Rightarrow> Inr (map (raml2obj_parse env) files))"

text \<open>
  \<^verbatim>\<open>parse\<close>. The outer \<^verbatim>\<open>Promise.all\<close> meets the promises that are rejected from the
  start before any parse has finished, so a listing failure wins, the first in the order
  of the paths. Among failing parses the first to finish would win; the model takes the
  first in the order of submission.
\<close>

definition parse :: "(string \<Rightarrow> 'k::linorder) \<Rightarrow> env \<Rightarrow> user_config \<Rightarrow> error + node list" where
  "parse ck env user =
     (let config = extend_config (DefaultConfig (dirname env)) user;
          contentFilter = input_contentFilter config
      in case promise_all (map (load_path env config) (input_paths config)) of
           Inl e \<Rightarrow> Inl e
         | Inr started \<Rightarrow>
             (case promise_all (map promise_all started) of
                Inl e \<Rightarrow> Inl e
              | Inr its \<Rightarrow> normalize ck contentFilter its))"

section \<open>\<^verbatim>\<open>render\<close> (lines 79-205)\<close>

subsection \<open>The file system written by \<^verbatim>\<open>render\<close>\<close>

text \<open>
  The output side of the file system: the set of directories and the contents of the
  regular files, both keyed by resolved paths. The root is always a directory.
\<close>

record fs =
  fs_dirs :: "string list set"
  fs_files :: "string list \<rightharpoonup> string"

definition existsSync :: "fs \<Rightarrow> string list \<Rightarrow> bool" where
  "existsSync s p = (p = [] \<or> p \<in> fs_dirs s \<or> fs_files s p \<noteq> None)"

text \<open>The directories above a path, the root first; the path itself is not one of them.\<close>

definition ancestors :: "string list \<Rightarrow> string list list" where
  "ancestors p = (case p of [] \<Rightarrow> [] | _ # _ \<Rightarrow> prefixes (butlast p))"

text \<open>
  Modelled from the spec: \<^verbatim>\<open>helper.mkdirp(path)\<close> is missing from the sources. Called
  with the path of the file to write, it creates the parent directory of the path
  recursively: every directory above the path exists afterwards. It fails when a
  regular file is in the way.
\<close>

definition mkdirp :: "fs \<Rightarrow> string list \<Rightarrow> error + fs" where
  "mkdirp s p =
     (if list_ex (\<lambda>a. fs_files s a \<noteq> None) (ancestors p) then Inl IOError
      else Inr (s\<lparr>fs_dirs := fs_dirs s \<union> set (ancestors p)\<rparr>))"

text \<open>
  \<^verbatim>\<open>fs.writeFileSync(path, data)\<close>: fails on a directory and when the parent directory
  does not exist; otherwise the file holds \<open>data\<close> afterwards, whatever it held before.
\<close>

definition writeFileSync :: "fs \<Rightarrow> string list \<Rightarrow> string \<Rightarrow> error + fs" where
  "writeFileSync s p data =
     (if p = [] \<or> p \<in> fs_dirs s then Inl IOError
      else if butlast p \<noteq> [] \<and> butlast p \<notin> fs_dirs s then Inl IOError
      else Inr (s\<lparr>fs_files := (fs_files s)(p \<mapsto> data)\<rparr>))"

text \<open>
  The write of every File branch (lines 106-109, 125-128, 160-163, 179-182):
  \<^verbatim>\<open>if(!fs.existsSync(filePath)) helper.mkdirp(filePath);
  fs.writeFileSync(filePath, rendered);\<close>
\<close>

definition write_output :: "fs \<Rightarrow> string list \<Rightarrow> string \<Rightarrow> error + fs" where
  "write_output s filePath rendered =
     (case (if \<not> existsSync s filePath then mkdirp s filePath else Inr s) of
        Inl e \<Rightarrow> Inl e
      | Inr s' \<Rightarrow> writeFileSync s' filePath rendered)"

subsection \<open>The output content filter\<close>

definition js_or :: "jsval \<Rightarrow> jsval \<Rightarrow> jsval" where
  "js_or a b = (if truthy a then a else b)"

text \<open>
  \<^verbatim>\<open>(contentFilter && contentFilter(rendered)) || rendered\<close> (lines 104, 121, 156, 175,
  193). The value is a string: a truthy result of the filter is one, and so is
  \<^verbatim>\<open>rendered\<close>.
\<close>

definition filtered :: "(string \<Rightarrow> jsval) option \<Rightarrow> string \<Rightarrow> string" where
  "filtered contentFilter rendered =
     (case js_or (case contentFilter of None \<Rightarrow> JNull | Some f \<Rightarrow> f rendered) (JStr rendered) of
        JStr s \<Rightarrow> s
      | _ \<Rightarrow> rendered)"

subsection \<open>Iteration helpers\<close>

text \<open>
  Modelled from the spec: \<^verbatim>\<open>helper.map\<close> is missing from the sources; it applies the
  function to each element in order. A function that throws ends it with the error.
\<close>

fun helper_map :: "('a \<Rightarrow> error + 'b) \<Rightarrow> 'a list \<Rightarrow> error + 'b list" where
  "helper_map f [] = Inr []"
| "helper_map f (x # xs) =
     (case f x of
        Inl e \<Rightarrow> Inl e
      | Inr y \<Rightarrow> (case helper_map f xs of Inl e \<Rightarrow> Inl e | Inr ys \<Rightarrow> Inr (y # ys)))"

text \<open>
  Modelled from the spec: \<^verbatim>\<open>helper.each\<close> is missing from the sources; it calls the
  function on each element in order. The function may change the state it closes over,
  which is passed along here; a function that throws ends the iteration with the error.
\<close>

fun helper_each :: "('a \<Rightarrow> 's \<Rightarrow> error + 's) \<Rightarrow> 'a list \<Rightarrow> 's \<Rightarrow> error + 's" where
  "helper_each f [] s = Inr s"
| "helper_each f (x # xs) s =
     (case f x s of Inl e \<Rightarrow> Inl e | Inr s' \<Rightarrow> helper_each f xs s')"

text \<open>The elements \<^verbatim>\<open>helper.each\<close> visits; an absent collection has none.\<close>

definition elements :: "'a list option \<Rightarrow> 'a list" where
  "elements c = (case c of None \<Rightarrow> [] | Some xs \<Rightarrow> xs)"

text \<open>\<^verbatim>\<open>Array.prototype.join\<close> on strings.\<close>

fun js_join :: "string \<Rightarrow> string list \<Rightarrow> string" where
  "js_join sep [] = []"
| "js_join sep [x] = x"
| "js_join sep (x # y # ys) = x @ sep @ js_join sep (y # ys)"

text \<open>String concatenation with a value that may be \<^verbatim>\<open>undefined\<close>.\<close>

definition js_string :: "string option \<Rightarrow> string" where
  "js_string v = (case v of None \<Rightarrow> ''undefined'' | Some s \<Rightarrow> s)"

subsection \<open>The dispatcher\<close>

text \<open>
  What \<^verbatim>\<open>render\<close> acts on besides the documents: the file system and the standard
  output.
\<close>

record world =
  w_fs :: fs
  w_stdout :: string

text \<open>
  The function mapped over the documents in the AllInOne branch and in the branch of
  the other output types (lines 101-105, 190-194).
\<close>

definition render_item ::
    "env \<Rightarrow> string list \<Rightarrow> (string \<Rightarrow> jsval) option \<Rightarrow> node \<Rightarrow> error + string" where
  "render_item env templateFile contentFilter item =
     (case nunjucks_render env templateFile item of
        Inl e \<Rightarrow> Inl e
      | Inr rendered \<Rightarrow> Inr (filtered contentFilter rendered))"

text \<open>
  The page of one resource (lines 117-128 and 171-182): the document's \<^verbatim>\<open>resources\<close>
  field is assigned the one-element array, the document is rendered and filtered, and
  the text is written under the output path. \<open>name\<close> is the file name before the
  extension. \<^verbatim>\<open>path.join\<close> throws a TypeError when the output path is \<^verbatim>\<open>null\<close>.
  The state is the document and the file system.
\<close>

definition write_page ::
    "env \<Rightarrow> string list \<Rightarrow> (string \<Rightarrow> jsval) option \<Rightarrow> string list option \<Rightarrow> string
       \<Rightarrow> string \<Rightarrow> node \<Rightarrow> node \<times> fs \<Rightarrow> error + node \<times> fs" where
  "write_page env templateFile contentFilter outputPath outputExt name res st =
     (case st of (item, s) \<Rightarrow>
        (let item = set_resources (Some [res]) item
         in case render_item env templateFile contentFilter item of
              Inl e \<Rightarrow> Inl e
            | Inr rendered \<Rightarrow>
                (case outputPath of
                   None \<Rightarrow> Inl TypeError
                 | Some out \<Rightarrow>
                     (case write_output s (path_join out (name @ outputExt)) rendered of
                        Inl e \<Rightarrow> Inl e
                      | Inr s' \<Rightarrow> Inr (item, s')))))"

text \<open>The callback of the OnePerResource branch for one document (lines 115-129).\<close>

definition one_per_resource ::
    "env \<Rightarrow> string list \<Rightarrow> (string \<Rightarrow> jsval) option \<Rightarrow> string list option \<Rightarrow> string
       \<Rightarrow> node \<Rightarrow> fs \<Rightarrow> error + node \<times> fs" where
  "one_per_resource env templateFile contentFilter outputPath outputExt item s =
     helper_each
       (\<lambda>res. write_page env templateFile contentFilter outputPath outputExt (displayName res) res)
       (elements (resources item)) (item, s)"

text \<open>
  The comparator of lines 142-148. \<^verbatim>\<open>displayName[0]\<close> is \<^verbatim>\<open>undefined\<close> for an empty
  name, and a comparison with \<^verbatim>\<open>undefined\<close> is false.
\<close>

definition first_char :: "node \<Rightarrow> char option" where
  "first_char a = (case displayName a of [] \<Rightarrow> None | c # _ \<Rightarrow> Some c)"

definition js_less :: "char option \<Rightarrow> char option \<Rightarrow> bool" where
  "js_less x y = (case (x, y) of (Some c, Some d) \<Rightarrow> c < d | _ \<Rightarrow> False)"

definition first_char_compare :: "node \<Rightarrow> node \<Rightarrow> int" where
  "first_char_compare a b =
     (if js_less (first_char a) (first_char b) then - 1
      else if js_less (first_char b) (first_char a) then 1
      else 0)"

text \<open>
  The body of the loop of lines 137-149 for one version group: a group without nested
  resources, or with none, is skipped.
\<close>

definition sort_version :: "node \<Rightarrow> node" where
  "sort_version version =
     (case resources version of
        None \<Rightarrow> version
      | Some versionEndpoints \<Rightarrow>
          if versionEndpoints = [] then version
          else set_resources (Some (js_sort first_char_compare versionEndpoints)) version)"

text \<open>
  The loop of lines 137-149; \<^verbatim>\<open>for ... of\<close> over an absent \<^verbatim>\<open>item.resources\<close> throws
  a TypeError.
\<close>

definition sort_versions :: "node \<Rightarrow> error + node" where
  "sort_versions item =
     (case resources item of
        None \<Rightarrow> Inl TypeError
      | Some versions \<Rightarrow> Inr (set_resources (Some (map sort_version versions)) item))"

text \<open>
  The home page (lines 152-164). An absent or empty \<^verbatim>\<open>homeTemplateFile\<close> is falsy: no
  page is written.
\<close>

definition write_home ::
    "env \<Rightarrow> string option \<Rightarrow> (string \<Rightarrow> jsval) option \<Rightarrow> string list option \<Rightarrow> string
       \<Rightarrow> node \<Rightarrow> fs \<Rightarrow> error + fs" where
  "write_home env homeTemplate contentFilter outputPath outputExt item s =
     (case homeTemplate of
        None \<Rightarrow> Inr s
      | Some h \<Rightarrow>
          if h = [] then Inr s
          else (case render_item env (path_resolve (cwd env) h) contentFilter item of
                  Inl e \<Rightarrow> Inl e
                | Inr renderedVersion \<Rightarrow>
                    (case outputPath of
                       None \<Rightarrow> Inl TypeError
                     | Some out \<Rightarrow>
                         write_output s (path_join out (''Home'' @ outputExt)) renderedVersion)))"

text \<open>The pages of one version group (lines 168-183).\<close>

definition version_pages ::
    "env \<Rightarrow> string list \<Rightarrow> (string \<Rightarrow> jsval) option \<Rightarrow> string list option \<Rightarrow> string
       \<Rightarrow> node \<Rightarrow> node \<times> fs \<Rightarrow> error + node \<times> fs" where
  "version_pages env templateFile contentFilter outputPath outputExt version st =
     helper_each
       (\<lambda>res. write_page env templateFile contentFilter outputPath outputExt
                (displayName res @ ''_'' @ js_string (uniqueId version)) res)
       (elements (resources version)) st"

text \<open>
  The home page and the pages of one document (lines 151-184), written from the
  document as the sorting loop left it. The outer \<^verbatim>\<open>helper.each\<close> iterates over the
  array that \<^verbatim>\<open>item.resources\<close> holds when it starts.
\<close>

definition versioning_pages ::
    "env \<Rightarrow> string list \<Rightarrow> string option \<Rightarrow> (string \<Rightarrow> jsval) option \<Rightarrow> string list option
       \<Rightarrow> string \<Rightarrow> node \<Rightarrow> fs \<Rightarrow> error + node \<times> fs" where
  "versioning_pages env templateFile homeTemplate contentFilter outputPath outputExt item s =
     (case write_home env homeTemplate contentFilter outputPath outputExt item s of
        Inl e \<Rightarrow> Inl e
      | Inr s' \<Rightarrow>
          helper_each
            (version_pages env templateFile contentFilter outputPath outputExt)
            (elements (resources item)) (item, s'))"

text \<open>
  The callback of the OnePerResourceVersioning branch for one document (lines 135-184):
  the sorting loop, then the home page and the pages.
\<close>

definition one_per_resource_versioning ::
    "env \<Rightarrow> string list \<Rightarrow> string option \<Rightarrow> (string \<Rightarrow> jsval) option \<Rightarrow> string list option
       \<Rightarrow> string \<Rightarrow> node \<Rightarrow> fs \<Rightarrow> error + node \<times> fs" where
  "one_per_resource_versioning env templateFile homeTemplate contentFilter outputPath outputExt
       item s =
     (case sort_versions item of
        Inl e \<Rightarrow> Inl e
      | Inr item \<Rightarrow>
          versioning_pages env templateFile homeTemplate contentFilter outputPath outputExt
            item s)"

text \<open>
  \<^verbatim>\<open>helper.each(files, item => ...)\<close> of the two per-resource branches: the documents are
  processed in order, each one mutated by its callback, on the file system the previous
  one left.
\<close>

fun each_item ::
    "(node \<Rightarrow> fs \<Rightarrow> error + node \<times> fs) \<Rightarrow> node list \<Rightarrow> fs \<Rightarrow> error + node list \<times> fs" where
  "each_item f [] s = Inr ([], s)"
| "each_item f (item # rest) s =
     (case f item s of
        Inl e \<Rightarrow> Inl e
      | Inr (item', s') \<Rightarrow>
          (case each_item f rest s' of
             Inl e \<Rightarrow> Inl e
           | Inr (rest', s'') \<Rightarrow> Inr (item' # rest', s'')))"

text \<open>
  The continuation of \<^verbatim>\<open>render\<close> (lines 92-204) on the documents \<open>docs\<close> (\<^verbatim>\<open>files\<close> in
  the source); the texts are joined by \<^verbatim>\<open>"\n\n\n"\<close>, three line feeds. It returns the
  value the promise resolves with (\<open>None\<close> is
  \<^verbatim>\<open>undefined\<close>), the world, and the documents as the branch leaves them.
  \<^verbatim>\<open>outputPath\<close> is \<^verbatim>\<open>null\<close> when no path is configured. An empty path is falsy
  and stays the empty string: as the base of \<^verbatim>\<open>path.join\<close> it stands for the working
  directory, as the file of the AllInOne branch it cannot be written.
\<close>

definition dispatch ::
    "env \<Rightarrow> config \<Rightarrow> node list \<Rightarrow> world \<Rightarrow> error + string option \<times> world \<times> node list" where
  "dispatch env config docs w =
     (let templateFile = path_resolve (cwd env) (input_templateFile config);
          contentFilter = output_contentFilter config;
          outputPath = map_option (path_resolve (cwd env)) (output_file_path config);
          outputExt = output_file_extension config;
          outputType = output_type config;
          outputSplitting = output_file_splitting config
      in if outputType = File then
           (case outputSplitting of
              AllInOne \<Rightarrow>
                (case helper_map (render_item env templateFile contentFilter) docs of
                   Inl e \<Rightarrow> Inl e
                 | Inr rendered \<Rightarrow>
                     (case outputPath of
                        None \<Rightarrow> Inl TypeError
                      | Some out \<Rightarrow>
                          if output_file_path config = Some [] then Inl IOError
                          else (case write_output (w_fs w) out (js_join [CHR 0x0A, CHR 0x0A, CHR 0x0A] rendered) of
                                  Inl e \<Rightarrow> Inl e
                                | Inr s' \<Rightarrow> Inr (None, w\<lparr>w_fs := s'\<rparr>, docs))))
            | OnePerResource \<Rightarrow>
                (case each_item
                        (one_per_resource env templateFile contentFilter outputPath outputExt)
                        docs (w_fs w) of
                   Inl e \<Rightarrow> Inl e
                 | Inr (docs', s') \<Rightarrow> Inr (None, w\<lparr>w_fs := s'\<rparr>, docs'))
            | OnePerResourceVersioning \<Rightarrow>
                (case each_item
                        (one_per_resource_versioning env templateFile
                           (input_homeTemplateFile config) contentFilter outputPath outputExt)
                        docs (w_fs w) of
                   Inl e \<Rightarrow> Inl e
                 | Inr (docs', s') \<Rightarrow> Inr (None, w\<lparr>w_fs := s'\<rparr>, docs')))
         else
           (case helper_map (render_item env templateFile contentFilter) docs of
              Inl e \<Rightarrow> Inl e
            | Inr rendered_list \<Rightarrow>
                (let rendered = js_join [CHR 0x0A, CHR 0x0A, CHR 0x0A] rendered_list
                 in if outputType = ReturnOnly then Inr (Some rendered, w, docs)
                    else Inr (None, w\<lparr>w_stdout := w_stdout w @ rendered\<rparr>, docs))))"

text \<open>The merged configuration, as \<^verbatim>\<open>render\<close> passes it on to \<^verbatim>\<open>parse\<close>.\<close>

definition as_user_config :: "config \<Rightarrow> user_config" where
  "as_user_config c =
     \<lparr> u_input_paths = Some (input_paths c),
       u_input_recursive = Some (input_recursive c),
       u_input_fileFilter = Some (input_fileFilter c),
       u_input_templateFile = Some (input_templateFile c),
       u_input_homeTemplateFile = input_homeTemplateFile c,
       u_input_contentFilter = Some (input_contentFilter c),
       u_output_type = Some (output_type c),
       u_output_file_splitting = Some (output_file_splitting c),
       u_output_file_path = Some (output_file_path c),
       u_output_file_extension = Some (output_file_extension c),
       u_output_contentFilter = Some (output_contentFilter c) \<rparr>"

definition render ::
    "(string \<Rightarrow> 'k::linorder) \<Rightarrow> env \<Rightarrow> user_config \<Rightarrow> world
       \<Rightarrow> error + string option \<times> world \<times> node list" where
  "render ck env user w =
     (let config = extend_config (DefaultConfig (dirname env)) user
      in case parse ck env (as_user_config config) of
           Inl e \<Rightarrow> Inl e
         | Inr docs \<Rightarrow> dispatch env config docs w)"

section \<open>Predicates of the specification and example inputs\<close>

subsection \<open>Reachable nodes and sorted collections\<close>

lemma kid_size:
  assumes "get_key k n = Some kids" "x \<in> set kids"
  shows "size x < size n"
proof -
  have "size x \<le> size_list size kids"
    using assms(2) by (rule size_list_estimation') simp
  with get_key_size[OF assms(1)] show ?thesis by simp
qed

text \<open>The nodes reachable from a node through the container keys, the node itself first.\<close>

function reach :: "node \<Rightarrow> node list" where
  "reach n =
     n # concat (map (\<lambda>k. case get_key k n of
                               None \<Rightarrow> []
                             | Some kids \<Rightarrow> concat (map reach kids)) deepKeys)"
  by pat_completeness auto
termination
  by (relation "measure size") (auto dest: kid_size)

declare reach.simps [simp del]

text \<open>Non-decreasing by \<^verbatim>\<open>displayName\<close> under the locale comparison.\<close>

definition sorted_by_displayName :: "(string \<Rightarrow> 'k::linorder) \<Rightarrow> property list \<Rightarrow> bool" where
  "sorted_by_displayName ck props =
     sorted_wrt (\<lambda>a b. localeCompare ck (p_displayName a) (p_displayName b) \<le> 0) props"

text \<open>
  The collection that the lookup \<^verbatim>\<open>body.properties || body.items.properties\<close> finds:
  the node's own \<^verbatim>\<open>properties\<close>, and \<^verbatim>\<open>items.properties\<close> only when the node has none.
\<close>

definition selected_props :: "node \<Rightarrow> property list option" where
  "selected_props n =
     (case properties n of
        Some props \<Rightarrow> Some props
      | None \<Rightarrow> (case items n of None \<Rightarrow> None | Some it \<Rightarrow> i_properties it))"

definition selected_sorted :: "(string \<Rightarrow> 'k::linorder) \<Rightarrow> node \<Rightarrow> bool" where
  "selected_sorted ck n =
     (case selected_props n of None \<Rightarrow> True | Some props \<Rightarrow> sorted_by_displayName ck props)"

text \<open>Both collections of a node, where present, are sorted.\<close>

definition all_properties_sorted :: "(string \<Rightarrow> 'k::linorder) \<Rightarrow> node \<Rightarrow> bool" where
  "all_properties_sorted ck n =
     ((case properties n of None \<Rightarrow> True | Some props \<Rightarrow> sorted_by_displayName ck props) \<and>
      (case items n of
         None \<Rightarrow> True
       | Some it \<Rightarrow>
           (case i_properties it of None \<Rightarrow> True | Some props \<Rightarrow> sorted_by_displayName ck props)))"

text \<open>
  The endpoint resources that the OnePerResourceVersioning branch renders for a document,
  in the order of rendering: the nested resources of its version groups.
\<close>

definition rendered_endpoints :: "node \<Rightarrow> node list" where
  "rendered_endpoints item =
     concat (map (\<lambda>version. elements (resources version)) (elements (resources item)))"

text \<open>
  Ascending by the first character of \<^verbatim>\<open>displayName\<close>: no resource is followed by one
  whose first character is smaller.
\<close>

definition sorted_by_first_char :: "node list \<Rightarrow> bool" where
  "sorted_by_first_char eps =
     sorted_wrt (\<lambda>a b. \<not> js_less (first_char b) (first_char a)) eps"

text \<open>
  What a run of writes leaves of a file system: no directory and no file is lost, and
  every file that is new lies below directories that exist, up to the root.
\<close>

definition grown_with_parents :: "fs \<Rightarrow> fs \<Rightarrow> bool" where
  "grown_with_parents s s' =
     (fs_dirs s \<subseteq> fs_dirs s'
      \<and> (\<forall>p. fs_files s p \<noteq> None \<longrightarrow> fs_files s' p \<noteq> None)
      \<and> (\<forall>p. fs_files s p = None \<and> fs_files s' p \<noteq> None \<longrightarrow>
             p \<noteq> [] \<and> set (ancestors p) \<subseteq> fs_dirs s'))"

subsection \<open>Example inputs\<close>

text \<open>A collation for the examples: strings compare by their code units.\<close>

definition code_unit_order :: "string \<Rightarrow> string" where
  "code_unit_order s = s"

definition demo_fs :: fsentry where
  "demo_fs =
     DirEntry [(''api'', DirEntry [(''users.raml'', FileEntry), (''notes.txt'', FileEntry),
                                  (''xraml'', FileEntry)])]"

definition demo_env :: "node \<Rightarrow> env" where
  "demo_env doc =
     \<lparr> fs_root = demo_fs, cwd = [''work''], dirname = ''/lib'',
       raml2obj_parse = (\<lambda>file. Inr doc),
       nunjucks_render =
         (\<lambda>template context.
            Inr (js_join ''/'' template @ ''|'' @ displayName context @ '':''
                   @ concat (map displayName (elements (resources context))))) \<rparr>"

definition demo_paths :: "string list \<Rightarrow> user_config" where
  "demo_paths ps = no_config \<lparr> u_input_paths := Some ps \<rparr>"

text \<open>A document with an empty \<^verbatim>\<open>properties\<close> array and unsorted \<^verbatim>\<open>items.properties\<close>.\<close>

definition both_doc :: node where
  "both_doc =
     Node ''API'' None (Some [])
       (Some (Items (Some [Property ''b'' ''string'', Property ''a'' ''number''])))
       None None None None"

text \<open>A document with unsorted \<^verbatim>\<open>properties\<close> and a resource with \<^verbatim>\<open>items.properties\<close>.\<close>

definition typed_doc :: node where
  "typed_doc =
     Node ''API'' None (Some [Property ''b'' ''string'', Property ''a'' ''number'']) None
       (Some [Node ''/users'' (Some ''users'') None
                (Some (Items (Some [Property ''z'' ''string'', Property ''y'' ''string''])))
                None None None None])
       None None None"

text \<open>The same document with both collections sorted.\<close>

definition typed_doc_sorted :: node where
  "typed_doc_sorted =
     Node ''API'' None (Some [Property ''a'' ''number'', Property ''b'' ''string'']) None
       (Some [Node ''/users'' (Some ''users'') None
                (Some (Items (Some [Property ''y'' ''string'', Property ''z'' ''string''])))
                None None None None])
       None None None"

text \<open>A resource with neither \<^verbatim>\<open>properties\<close> nor \<^verbatim>\<open>items\<close>.\<close>

definition plain_resource :: node where
  "plain_resource = Node ''/users'' (Some ''users'') None None None None None None"

lemmas parse_eval =
  parse_def extend_config_def DefaultConfig_def no_config_def load_path_def
  fileFilter_predicate_def listFiles_def path_resolve_def new_RegExp_def RegExp_test_def
  line_terminator_def normalize_def unwindArray_def deepKeys_def callback_def sort_props_def
  js_sort_def localeCompare_def demo_env_def demo_paths_def demo_fs_def code_unit_order_def

text \<open>An empty output file system and nothing printed yet.\<close>

definition demo_world :: world where
  "demo_world = \<lparr> w_fs = \<lparr> fs_dirs = {}, fs_files = Map.empty \<rparr>, w_stdout = [] \<rparr>"

text \<open>A filter that rejects the text \<^verbatim>\<open>API:\<close> with \<^verbatim>\<open>null\<close> and marks every other text.\<close>

definition demo_filter :: "string \<Rightarrow> jsval" where
  "demo_filter rendered = (if rendered = ''templates/index.njk|API:'' then JNull else JStr (rendered @ ''!''))"

definition demo_output ::
    "OutputType \<Rightarrow> FileSplitting \<Rightarrow> (string \<Rightarrow> jsval) option \<Rightarrow> user_config" where
  "demo_output t sp cf =
     (demo_paths [''/api/users.raml''])
       \<lparr> u_output_type := Some t, u_output_file_splitting := Some sp,
         u_output_file_path := Some (Some ''/out''), u_output_contentFilter := Some cf \<rparr>"

text \<open>A document with one version group \<^verbatim>\<open>v1\<close> and two endpoints.\<close>

definition versioned_doc :: node where
  "versioned_doc =
     Node ''API'' None (Some []) None
       (Some [Node ''/v1'' (Some ''v1'') (Some []) None
                (Some [Node ''/users'' (Some ''v1_users'') (Some []) None None None None None,
                       Node ''/groups'' (Some ''v1_groups'') (Some []) None None None None None])
                None None None])
       None None None"

text \<open>A document without resources.\<close>

definition empty_doc :: node where
  "empty_doc = Node ''API'' None (Some []) None (Some []) None None None"

text \<open>A filter made to keep the original text where the given filter returns a falsy value.\<close>

definition replace_if_truthy :: "(string \<Rightarrow> jsval) \<Rightarrow> string \<Rightarrow> jsval" where
  "replace_if_truthy f rendered = (if truthy (f rendered) then f rendered else JStr rendered)"

text \<open>The versioned document after each of the two per-resource branches.\<close>

definition after_one_per_resource :: node where
  "after_one_per_resource =
     Node ''API'' None (Some []) None
       (Some [Node ''/v1'' (Some ''v1'') (Some []) None
                (Some [Node ''/users'' (Some ''v1_users'') (Some []) None None None None None,
                       Node ''/groups'' (Some ''v1_groups'') (Some []) None None None None None])
                None None None])
       None None None"

definition after_versioning :: node where
  "after_versioning =
     Node ''API'' None (Some []) None
       (Some [Node ''/groups'' (Some ''v1_groups'') (Some []) None None None None None])
       None None None"

text \<open>Three endpoints, the second with an empty \<^verbatim>\<open>displayName\<close>.\<close>

definition endpoint :: "string \<Rightarrow> node" where
  "endpoint name = Node name (Some name) (Some []) None None None None None"

definition unnamed_group :: node where
  "unnamed_group =
     Node ''/v1'' (Some ''v1'') (Some []) None
       (Some [endpoint ''b'', endpoint [], endpoint ''a'']) None None None"

text \<open>A document whose version group is not sorted.\<close>

definition unsorted_doc :: node where
  "unsorted_doc =
     Node ''API2'' None (Some []) None
       (Some [Node ''/v2'' (Some ''v2'') (Some []) None
                (Some [endpoint ''zeta'', endpoint ''alpha'']) None None None])
       None None None"

definition sorted_doc :: node where
  "sorted_doc =
     Node ''API2'' None (Some []) None
       (Some [Node ''/v2'' (Some ''v2'') (Some []) None
                (Some [endpoint ''alpha'', endpoint ''zeta'']) None None None])
       None None None"

text \<open>The callback of the versioning branch as the examples configure it.\<close>

definition demo_versioning :: "node \<Rightarrow> fs \<Rightarrow> error + node \<times> fs" where
  "demo_versioning =
     one_per_resource_versioning (demo_env versioned_doc) [''templates'', ''index.njk''] None None
       (Some [''out'']) ''.md''"

definition after_unsorted :: node where
  "after_unsorted =
     Node ''API2'' None (Some []) None (Some [endpoint ''zeta'']) None None None"

definition second_written :: fs where
  "second_written =
     \<lparr> fs_dirs = {[], [''out'']},
       fs_files = [[''out'', ''users_v1.md''] \<mapsto> ''templates/index.njk|API:/users'',
                   [''out'', ''groups_v1.md''] \<mapsto> ''templates/index.njk|API:/groups'',
                   [''out'', ''alpha_v2.md''] \<mapsto> ''templates/index.njk|API2:alpha'',
                   [''out'', ''zeta_v2.md''] \<mapsto> ''templates/index.njk|API2:zeta''] \<rparr>"

definition first_written :: fs where
  "first_written =
     \<lparr> fs_dirs = {[], [''out'']},
       fs_files = [[''out'', ''users_v1.md''] \<mapsto> ''templates/index.njk|API:/users'',
                   [''out'', ''groups_v1.md''] \<mapsto> ''templates/index.njk|API:/groups''] \<rparr>"



text \<open>
  Three files in one directory; the parser gives each document the path of its file as
  \<^verbatim>\<open>displayName\<close>, and the template prints that name.
\<close>

definition titled_env :: env where
  "titled_env =
     \<lparr> fs_root =
         DirEntry [(''docs'', DirEntry [(''a.raml'', FileEntry), (''b.raml'', FileEntry),
                                       (''c.raml'', FileEntry)])],
       cwd = [''work''], dirname = ''/lib'',
       raml2obj_parse = (\<lambda>file. Inr (Node file None (Some []) None None None None None)),
       nunjucks_render = (\<lambda>template context. Inr (displayName context)) \<rparr>"

definition titled :: "string \<Rightarrow> node" where
  "titled file = Node file None (Some []) None None None None None"

definition three_documents :: "OutputType \<Rightarrow> user_config" where
  "three_documents t =
     (demo_output t AllInOne (Some demo_filter)) \<lparr> u_input_paths := Some [''/docs''] \<rparr>"

definition three_joined :: fs where
  "three_joined =
     \<lparr> fs_dirs = {[]},
       fs_files =
         [[''out''] \<mapsto>
            ''/docs/a.raml!'' @ [CHR 0x0A, CHR 0x0A, CHR 0x0A] @ ''/docs/b.raml!''
              @ [CHR 0x0A, CHR 0x0A, CHR 0x0A] @ ''/docs/c.raml!''] \<rparr>"

text \<open>The File branches writing below \<^verbatim>\<open>/out/site\<close>, which does not exist.\<close>

definition all_in_one_config :: config where
  "all_in_one_config =
     extend_config (DefaultConfig ''/lib'')
       ((demo_output File AllInOne None)
          \<lparr> u_output_file_path := Some (Some ''/out/site/all.md'') \<rparr>)"

definition per_resource_config :: "FileSplitting \<Rightarrow> config" where
  "per_resource_config sp =
     extend_config (DefaultConfig ''/lib'')
       ((demo_output File sp None)
          \<lparr> u_output_file_path := Some (Some ''/out/site''),
            u_input_homeTemplateFile := Some ''home.njk'' \<rparr>)"

definition site_all :: fs where
  "site_all =
     \<lparr> fs_dirs = {[], [''out''], [''out'', ''site'']},
       fs_files = [[''out'', ''site'', ''all.md''] \<mapsto> ''templates/index.njk|API:/v1''] \<rparr>"

definition site_home :: fs where
  "site_home =
     \<lparr> fs_dirs = {[], [''out''], [''out'', ''site'']},
       fs_files = [[''out'', ''site'', ''Home.md''] \<mapsto> ''work/home.njk|API:/v1''] \<rparr>"

definition site_resource :: fs where
  "site_resource =
     \<lparr> fs_dirs = {[], [''out''], [''out'', ''site'']},
       fs_files = [[''out'', ''site'', ''v1.md''] \<mapsto> ''templates/index.njk|API:/v1''] \<rparr>"

definition site_versions :: fs where
  "site_versions =
     \<lparr> fs_dirs = {[], [''out''], [''out'', ''site'']},
       fs_files =
         [[''out'', ''site'', ''Home.md''] \<mapsto> ''work/home.njk|API:/v1'',
          [''out'', ''site'', ''users_v1.md''] \<mapsto> ''templates/index.njk|API:/users'',
          [''out'', ''site'', ''groups_v1.md''] \<mapsto> ''templates/index.njk|API:/groups''] \<rparr>"

lemmas render_eval =
  render_def as_user_config_def dispatch_def render_item_def filtered_def js_or_def
  write_output_def existsSync_def mkdirp_def ancestors_def writeFileSync_def
  write_page_def one_per_resource_def one_per_resource_versioning_def versioning_pages_def
  sort_versions_def
  sort_version_def first_char_compare_def first_char_def js_less_def write_home_def
  version_pages_def elements_def js_string_def path_join_def demo_world_def demo_output_def
  demo_filter_def Let_def

section \<open>Properties of \<^verbatim>\<open>parse\<close>\<close>

subsection \<open>Sorting with the comparators of the source\<close>

lemma insert_by_insort_key:
  "insert_by (\<lambda>a b. if f a < f b then - 1 else if f b < f a then 1 else 0) x xs = insort_key f x xs"
  by (induction xs) auto

lemma js_sort_sort_key:
  "js_sort (\<lambda>a b. if f a < f b then - 1 else if f b < f a then 1 else (0::int)) xs
   = sort_key (f::'a \<Rightarrow> 'k::linorder) xs"
  by (induction xs) (simp_all add: js_sort_def sort_key_def insert_by_insort_key)

lemma sort_props_sort_key: "sort_props ck props = sort_key (\<lambda>p. ck (p_displayName p)) props"
  unfolding sort_props_def localeCompare_def by (rule js_sort_sort_key)

lemma sorted_by_displayName_iff:
  "sorted_by_displayName ck props \<longleftrightarrow> sorted (map (\<lambda>p. ck (p_displayName p)) props)"
  unfolding sorted_by_displayName_def localeCompare_def sorted_map
  by (rule arg_cong[where f = "\<lambda>r. sorted_wrt r props"]) (auto simp: fun_eq_iff)

lemma sort_props_sorted: "sorted_by_displayName ck (sort_props ck props)"
  by (simp add: sorted_by_displayName_iff sort_props_sort_key)

subsection \<open>The walk leaves every visited node with its selected collection sorted\<close>

lemma deep_key_UNIV: "set deepKeys = UNIV"
proof -
  have "k \<in> set deepKeys" for k by (cases k) (simp_all add: deepKeys_def)
  then show ?thesis by auto
qed

lemma set_reach:
  "set (reach n) =
   insert n (\<Union>k. case get_key k n of None \<Rightarrow> {} | Some kids \<Rightarrow> (\<Union>x\<in>set kids. set (reach x)))"
proof -
  have aux: "set (case ko of None \<Rightarrow> [] | Some kids \<Rightarrow> concat (map reach kids))
             = (case ko of None \<Rightarrow> {} | Some kids \<Rightarrow> (\<Union>x\<in>set kids. set (reach x)))" for ko
    by (cases ko) simp_all
  have "set (reach n) =
        insert n (\<Union>k\<in>set deepKeys. case get_key k n of
                                        None \<Rightarrow> {}
                                      | Some kids \<Rightarrow> (\<Union>x\<in>set kids. set (reach x)))"
    by (subst reach.simps) (simp only: list.set set_concat set_map image_image aux)
  then show ?thesis by (simp add: deep_key_UNIV)
qed

lemma reach_self: "n \<in> set (reach n)"
  by (subst set_reach) simp

lemma all_selected_sorted_iff:
  "(\<forall>m\<in>set (reach n). selected_sorted ck m) \<longleftrightarrow>
   selected_sorted ck n \<and>
   (\<forall>k kids. get_key k n = Some kids \<longrightarrow> (\<forall>x\<in>set kids. \<forall>m\<in>set (reach x). selected_sorted ck m))"
  by (subst set_reach) (fastforce split: option.splits)

lemma callback_selected_sorted:
  assumes "callback ck n = Inr n'"
  shows "selected_sorted ck n'" and "get_key k n' = get_key k n"
  using assms
  by (cases n; cases k;
      auto simp: callback_def selected_sorted_def selected_props_def sort_props_sorted
           split: option.splits)+

lemma get_set_key: "get_key k' (set_key k v n) = (if k' = k then v else get_key k' n)"
  by (cases n; cases k; cases k') auto

lemma selected_props_set_key: "selected_props (set_key k v n) = selected_props n"
  by (cases n; cases k) (simp_all add: selected_props_def split: option.splits)

lemma selected_sorted_set_key: "selected_sorted ck (set_key k v n) = selected_sorted ck n"
  by (simp add: selected_sorted_def selected_props_set_key)

lemma walk_selected_sorted:
  fixes ck :: "string \<Rightarrow> 'k::linorder"
  shows "recursiveEach ns dks cb = Inr r \<Longrightarrow> cb = callback ck \<Longrightarrow> set dks = UNIV \<Longrightarrow> distinct dks
         \<Longrightarrow> \<forall>x\<in>set r. \<forall>m\<in>set (reach x). selected_sorted ck m"
    and "descend item dks keys cb acc = Inr r' \<Longrightarrow> cb = callback ck \<Longrightarrow> set dks = UNIV
         \<Longrightarrow> distinct dks \<Longrightarrow> distinct keys \<Longrightarrow> selected_sorted ck acc
         \<Longrightarrow> \<forall>k\<in>set keys. get_key k acc = get_key k item
         \<Longrightarrow> \<forall>k. k \<notin> set keys \<longrightarrow>
               (\<forall>kids. get_key k acc = Some kids \<longrightarrow>
                  (\<forall>x\<in>set kids. \<forall>m\<in>set (reach x). selected_sorted ck m))
         \<Longrightarrow> \<forall>m\<in>set (reach r'). selected_sorted ck m"
proof (induction ns dks cb and item dks keys cb acc arbitrary: r and r'
       rule: recursiveEach_descend.induct)
  case (1 dks cb)
  then show ?case by simp
next
  case (2 item rest dks cb)
  from "2.prems"(1) obtain item' where cb: "cb item = Inr item'"
    by (auto split: sum.splits)
  from "2.prems"(1) cb obtain item'' where d: "descend item dks dks cb item' = Inr item''"
    by (auto split: sum.splits)
  from "2.prems"(1) cb d obtain rest'
    where rr: "recursiveEach rest dks cb = Inr rest'" and r: "r = item'' # rest'"
    by (auto split: sum.splits)
  have g: "selected_sorted ck item'" and same: "\<And>k. get_key k item' = get_key k item"
    using callback_selected_sorted[of ck item item'] cb "2.prems"(2) by auto
  have "\<forall>m\<in>set (reach item''). selected_sorted ck m"
    using "2.IH"(1)[OF cb d "2.prems"(2,3,4) "2.prems"(4) g] same "2.prems"(3) by auto
  moreover have "\<forall>x\<in>set rest'. \<forall>m\<in>set (reach x). selected_sorted ck m"
    using "2.IH"(2)[OF cb d rr "2.prems"(2,3,4)] .
  ultimately show ?case using r by simp
next
  case (3 item dks cb acc)
  then show ?case by (subst all_selected_sorted_iff) auto
next
  case (4 item dks key keys cb acc)
  from "4.prems"(5) have dk: "distinct keys" and nk: "key \<notin> set keys" by simp_all
  show ?case
  proof (cases "get_key key item")
    case None
    with "4.prems"(1) have d: "descend item dks keys cb acc = Inr r'" by simp
    have k1: "\<forall>k\<in>set keys. get_key k acc = get_key k item" using "4.prems"(7) by simp
    have k2: "\<forall>k. k \<notin> set keys \<longrightarrow>
                (\<forall>kids. get_key k acc = Some kids \<longrightarrow>
                   (\<forall>x\<in>set kids. \<forall>m\<in>set (reach x). selected_sorted ck m))"
    proof (intro allI impI)
      fix k kids assume a: "k \<notin> set keys" "get_key k acc = Some kids"
      show "\<forall>x\<in>set kids. \<forall>m\<in>set (reach x). selected_sorted ck m"
      proof (cases "k = key")
        case True
        with a(2) "4.prems"(7) None show ?thesis by simp
      next
        case False
        with a "4.prems"(8) show ?thesis by simp
      qed
    qed
    show ?thesis
      by (rule "4.IH"(1)[OF None d "4.prems"(2,3,4) dk "4.prems"(6) k1 k2])
  next
    case (Some kids)
    from "4.prems"(1) Some obtain kids' where rk: "recursiveEach kids dks cb = Inr kids'"
      by (auto split: sum.splits)
    from "4.prems"(1) Some rk
    have d: "descend item dks keys cb (set_key key (Some kids') acc) = Inr r'" by simp
    have gk: "\<forall>x\<in>set kids'. \<forall>m\<in>set (reach x). selected_sorted ck m"
      by (rule "4.IH"(2)[OF Some rk "4.prems"(2,3,4)])
    have g: "selected_sorted ck (set_key key (Some kids') acc)"
      using "4.prems"(6) by (simp add: selected_sorted_set_key)
    have k1: "\<forall>k\<in>set keys. get_key k (set_key key (Some kids') acc) = get_key k item"
      using "4.prems"(7) nk by (auto simp: get_set_key)
    have k2: "\<forall>k. k \<notin> set keys \<longrightarrow>
                (\<forall>ks. get_key k (set_key key (Some kids') acc) = Some ks \<longrightarrow>
                   (\<forall>x\<in>set ks. \<forall>m\<in>set (reach x). selected_sorted ck m))"
    proof (intro allI impI)
      fix k ks
      assume a: "k \<notin> set keys" "get_key k (set_key key (Some kids') acc) = Some ks"
      show "\<forall>x\<in>set ks. \<forall>m\<in>set (reach x). selected_sorted ck m"
      proof (cases "k = key")
        case True
        with a(2) have "ks = kids'" by (simp add: get_set_key)
        with gk show ?thesis by simp
      next
        case False
        with a have "k \<notin> set (key # keys)" "get_key k acc = Some ks"
          by (simp_all add: get_set_key)
        with "4.prems"(8) show ?thesis by blast
      qed
    qed
    show ?thesis
      by (rule "4.IH"(3)[OF Some rk d "4.prems"(2,3,4) dk g k1 k2])
  qed
qed

lemma normalize_selected_sorted:
  assumes "normalize ck contentFilter its = Inr docs"
  shows "\<forall>doc\<in>set docs. \<forall>n\<in>set (reach doc). selected_sorted ck n"
proof -
  have d: "distinct deepKeys" by (simp add: deepKeys_def)
  from assms obtain relaxed where "recursiveEach relaxed deepKeys (callback ck) = Inr docs"
    by (auto simp: normalize_def Let_def)
  from walk_selected_sorted(1)[OF this refl deep_key_UNIV d] show ?thesis .
qed

lemma parse_normalize:
  "parse ck env user = Inr docs \<Longrightarrow>
   \<exists>its. normalize ck (input_contentFilter (extend_config (DefaultConfig (dirname env)) user)) its = Inr docs"
  by (auto simp: parse_def Let_def split: sum.splits)

text \<open>
  C1, as stated: after \<^verbatim>\<open>parse\<close> every reachable node has its \<^verbatim>\<open>properties\<close> collection
  sorted, whether it is carried directly or under \<^verbatim>\<open>items\<close>. This fails for a node that
  carries both: the lookup \<^verbatim>\<open>body.properties || body.items.properties\<close> stops at the
  (empty, hence truthy) \<^verbatim>\<open>properties\<close> array and \<^verbatim>\<open>items.properties\<close> stays as parsed.
\<close>

theorem parse_leaves_items_properties_unsorted:
  "parse code_unit_order (demo_env both_doc) (demo_paths [''/api/users.raml'']) = Inr [both_doc]
   \<and> both_doc \<in> set (reach both_doc)
   \<and> \<not> all_properties_sorted code_unit_order both_doc"
proof -
  have "parse code_unit_order (demo_env both_doc) (demo_paths [''/api/users.raml'']) = Inr [both_doc]"
    by (simp add: parse_eval both_doc_def)
  moreover have "\<not> all_properties_sorted code_unit_order both_doc"
    by (simp add: all_properties_sorted_def both_doc_def sorted_by_displayName_def
        localeCompare_def code_unit_order_def)
  ultimately show ?thesis by (simp add: reach_self)
qed

text \<open>
  C1, amended: for every document sequence that \<^verbatim>\<open>parse\<close> resolves with, at every node
  reachable through \<^verbatim>\<open>resources\<close>, \<^verbatim>\<open>methods\<close>, \<^verbatim>\<open>responses\<close> and \<^verbatim>\<open>body\<close> (the
  documents included) the collection that the lookup selects, the node's own
  \<^verbatim>\<open>properties\<close> or else its \<^verbatim>\<open>items.properties\<close>, is sorted non-decreasing by
  \<^verbatim>\<open>displayName\<close> under the locale comparison.
\<close>

theorem parse_selected_properties_sorted:
  assumes "parse ck env user = Inr docs"
  shows "\<forall>doc\<in>set docs. \<forall>n\<in>set (reach doc). selected_sorted ck n"
proof -
  from parse_normalize[OF assms] obtain its
    where "normalize ck (input_contentFilter (extend_config (DefaultConfig (dirname env)) user)) its
           = Inr docs"
    by blast
  then show ?thesis by (rule normalize_selected_sorted)
qed

theorem parse_selected_properties_sorted_witness:
  "parse code_unit_order (demo_env typed_doc) (demo_paths [''/api/users.raml'']) = Inr [typed_doc_sorted]
   \<and> selected_sorted code_unit_order typed_doc_sorted
   \<and> selected_props typed_doc_sorted = Some [Property ''a'' ''number'', Property ''b'' ''string'']"
proof -
  have p: "parse code_unit_order (demo_env typed_doc) (demo_paths [''/api/users.raml''])
           = Inr [typed_doc_sorted]"
    by (simp add: parse_eval typed_doc_def typed_doc_sorted_def)
  from parse_selected_properties_sorted[OF p] have "selected_sorted code_unit_order typed_doc_sorted"
    by (simp add: reach_self)
  with p show ?thesis by (simp add: selected_props_def typed_doc_sorted_def)
qed

text \<open>
  C2: at a visited node that has neither \<^verbatim>\<open>properties\<close> nor \<^verbatim>\<open>items\<close> the callback
  should not throw and \<^verbatim>\<open>parse\<close> should resolve. In the code the right operand of
  \<^verbatim>\<open>body.properties || body.items.properties\<close> dereferences the absent \<^verbatim>\<open>items\<close>: the
  callback throws a TypeError and \<^verbatim>\<open>parse\<close> rejects with it.
\<close>

theorem callback_throws_without_properties_and_items:
  "properties plain_resource = None \<and> items plain_resource = None
   \<and> callback ck plain_resource = Inl TypeError
   \<and> parse ck (demo_env plain_resource) (demo_paths [''/api/users.raml'']) = Inl TypeError"
  by (simp add: parse_eval plain_resource_def)

subsection \<open>The default file filter\<close>

lemma match_here_dot_raml:
  "match_here [AnyChar, Lit CHR ''r'', Lit CHR ''a'', Lit CHR ''m'', Lit CHR ''l''] True s
   \<longleftrightarrow> (\<exists>c. \<not> line_terminator c \<and> s = c # ''raml'')"
proof (cases s)
  case Nil
  then show ?thesis by simp
next
  case s1: (Cons c1 t1)
  show ?thesis
  proof (cases t1)
    case Nil
    with s1 show ?thesis by simp
  next
    case s2: (Cons c2 t2)
    show ?thesis
    proof (cases t2)
      case Nil
      with s1 s2 show ?thesis by simp
    next
      case s3: (Cons c3 t3)
      show ?thesis
      proof (cases t3)
        case Nil
        with s1 s2 s3 show ?thesis by simp
      next
        case s4: (Cons c4 t4)
        show ?thesis
        proof (cases t4)
          case Nil
          with s1 s2 s3 s4 show ?thesis by simp
        next
          case s5: (Cons c5 t5)
          with s1 s2 s3 s4 show ?thesis by (cases t5) auto
        qed
      qed
    qed
  qed
qed

lemma match_from_iff:
  "match_from as e s \<longleftrightarrow> (\<exists>pre rest. s = pre @ rest \<and> match_here as e rest)"
proof (induction s)
  case Nil
  then show ?case by simp
next
  case (Cons c cs)
  show ?case
  proof
    assume "match_from as e (c # cs)"
    then consider "match_here as e (c # cs)" | "match_from as e cs" by auto
    then show "\<exists>pre rest. c # cs = pre @ rest \<and> match_here as e rest"
    proof cases
      case 1
      then show ?thesis by (intro exI[of _ "[]"] exI[of _ "c # cs"]) simp
    next
      case 2
      with Cons.IH obtain pre rest where "cs = pre @ rest" "match_here as e rest" by auto
      then show ?thesis by (intro exI[of _ "c # pre"] exI[of _ rest]) simp
    qed
  next
    assume "\<exists>pre rest. c # cs = pre @ rest \<and> match_here as e rest"
    then obtain pre rest where pr: "c # cs = pre @ rest" "match_here as e rest" by auto
    show "match_from as e (c # cs)"
    proof (cases pre)
      case Nil
      with pr have "match_here as e (c # cs)" by simp
      then show ?thesis by simp
    next
      case (Cons p ps)
      with pr have "cs = ps @ rest" by simp
      with pr(2) Cons.IH show ?thesis by auto
    qed
  qed
qed

text \<open>
  What the default filter accepts: the paths that end in any one character other than a
  line terminator followed by \<^verbatim>\<open>raml\<close>.
\<close>

lemma default_fileFilter_accepts_iff:
  assumes "u_input_fileFilter user = None"
  shows "fileFilter_predicate (extend_config (DefaultConfig d) user) path
         \<longleftrightarrow> (\<exists>pre c. path = pre @ c # ''raml'' \<and> \<not> line_terminator c)"
proof -
  have "fileFilter_predicate (extend_config (DefaultConfig d) user) path
        = match_from [AnyChar, Lit CHR ''r'', Lit CHR ''a'', Lit CHR ''m'', Lit CHR ''l''] True path"
    using assms
    by (simp add: fileFilter_predicate_def extend_config_def DefaultConfig_def new_RegExp_def
        RegExp_test_def)
  then show ?thesis
    by (auto simp: match_from_iff match_here_dot_raml)
qed

text \<open>
  C4: the default \<^verbatim>\<open>input.fileFilter\<close> should accept exactly the paths that end with
  \<^verbatim>\<open>.raml\<close>. The pattern of the code is \<^verbatim>\<open>.raml$\<close> with an unescaped dot: it accepts
  \<^verbatim>\<open>/api/xraml\<close>, which does not end with \<^verbatim>\<open>.raml\<close>, and listing the directory hands the
  file to the parser.
\<close>

theorem default_fileFilter_accepts_xraml:
  "fileFilter_predicate (extend_config (DefaultConfig d) no_config) ''/api/xraml''
   \<and> \<not> suffix ''.raml'' ''/api/xraml''
   \<and> listFiles (demo_env doc) ''/api'' False
        (fileFilter_predicate (extend_config (DefaultConfig d) no_config))
      = Inr [''/api/users.raml'', ''/api/xraml'']"
  by (simp add: parse_eval suffix_def)

subsection \<open>A missing input path\<close>

lemma listFiles_error: "listFiles env path recursive accept = Inl e \<Longrightarrow> e = NotFoundError"
  by (simp add: listFiles_def split: option.splits fsentry.splits)

lemma load_path_error:
  assumes "load_path env config path = Inl e"
  shows "e = NotFoundError"
proof (cases "listFiles env path (input_recursive config) (fileFilter_predicate config)")
  case (Inl e')
  with assms have "e' = e" by (simp add: load_path_def)
  with Inl show ?thesis by (simp add: listFiles_error)
next
  case (Inr files)
  with assms show ?thesis by (simp add: load_path_def)
qed

lemma load_path_missing:
  "fs_lookup (fs_root env) (path_resolve (cwd env) path) = None
   \<Longrightarrow> load_path env config path = Inl NotFoundError"
  by (simp add: load_path_def listFiles_def)

lemma promise_all_Inl_mem: "promise_all ps = Inl e \<Longrightarrow> Inl e \<in> set ps"
  by (induction ps rule: promise_all.induct) (auto split: sum.splits)

lemma promise_all_rejects: "Inl e0 \<in> set ps \<Longrightarrow> \<exists>e. promise_all ps = Inl e"
  by (induction ps rule: promise_all.induct) (auto split: sum.splits)

text \<open>
  C8: when \<^verbatim>\<open>input.paths\<close> contains a path that does not exist, \<^verbatim>\<open>parse\<close> rejects with
  the not-found error; it does not resolve with any document sequence.
\<close>

theorem parse_missing_path_rejects:
  assumes "path \<in> set (input_paths (extend_config (DefaultConfig (dirname env)) user))"
    and "fs_lookup (fs_root env) (path_resolve (cwd env) path) = None"
  shows "parse ck env user = Inl NotFoundError"
proof -
  let ?config = "extend_config (DefaultConfig (dirname env)) user"
  let ?ps = "map (load_path env ?config) (input_paths ?config)"
  have "load_path env ?config path = Inl NotFoundError"
    by (rule load_path_missing[OF assms(2)])
  with assms(1) have "Inl NotFoundError \<in> set ?ps"
    by (simp add: image_iff) (rule bexI[of _ path], simp_all)
  then obtain e where e: "promise_all ?ps = Inl e"
    using promise_all_rejects by blast
  then have "Inl e \<in> set ?ps" by (rule promise_all_Inl_mem)
  then obtain p where "load_path env ?config p = Inl e" by (auto simp: image_iff)
  then have "e = NotFoundError" by (rule load_path_error)
  with e show ?thesis by (simp add: parse_def Let_def)
qed

theorem parse_missing_path_rejects_witness:
  "''/does/not/exist'' \<in> set (input_paths (extend_config (DefaultConfig (dirname (demo_env typed_doc)))
       (demo_paths [''/api'', ''/does/not/exist''])))
   \<and> fs_lookup (fs_root (demo_env typed_doc)) (path_resolve (cwd (demo_env typed_doc)) ''/does/not/exist'')
       = None
   \<and> parse code_unit_order (demo_env typed_doc) (demo_paths [''/api'', ''/does/not/exist''])
       = Inl NotFoundError"
proof -
  have a: "''/does/not/exist'' \<in> set (input_paths (extend_config (DefaultConfig (dirname (demo_env typed_doc)))
       (demo_paths [''/api'', ''/does/not/exist''])))"
    by (simp add: extend_config_def demo_paths_def no_config_def)
  have b: "fs_lookup (fs_root (demo_env typed_doc)) (path_resolve (cwd (demo_env typed_doc)) ''/does/not/exist'')
       = None"
    by (simp add: demo_env_def demo_fs_def path_resolve_def)
  from parse_missing_path_rejects[OF a b] a b show ?thesis by simp
qed


section \<open>Properties of \<^verbatim>\<open>render\<close>\<close>

subsection \<open>The content filter\<close>

lemma filtered_falsy: "\<not> truthy (f rendered) \<Longrightarrow> filtered (Some f) rendered = rendered"
  by (simp add: filtered_def js_or_def)

lemma filtered_truthy: "truthy (f rendered) \<Longrightarrow> JStr (filtered (Some f) rendered) = f rendered"
  by (cases "f rendered") (simp_all add: filtered_def js_or_def)

lemma filtered_replace_if_truthy:
  "filtered (Some (replace_if_truthy f)) rendered = filtered (Some f) rendered"
  by (cases "f rendered") (simp_all add: filtered_def js_or_def replace_if_truthy_def)

lemma render_item_replace_if_truthy:
  "render_item env t (Some (replace_if_truthy f)) = render_item env t (Some f)"
  by (rule ext) (simp add: render_item_def filtered_replace_if_truthy cong: sum.case_cong)

lemma write_page_replace_if_truthy:
  "write_page env t (Some (replace_if_truthy f)) = write_page env t (Some f)"
  by (intro ext) (simp add: write_page_def render_item_replace_if_truthy cong: sum.case_cong)

lemma write_home_replace_if_truthy:
  "write_home env h (Some (replace_if_truthy f)) = write_home env h (Some f)"
  by (intro ext)
     (simp add: write_home_def render_item_replace_if_truthy
           cong: sum.case_cong option.case_cong if_cong)

lemma one_per_resource_replace_if_truthy:
  "one_per_resource env t (Some (replace_if_truthy f)) = one_per_resource env t (Some f)"
  by (intro ext) (simp add: one_per_resource_def write_page_replace_if_truthy)

lemma version_pages_replace_if_truthy:
  "version_pages env t (Some (replace_if_truthy f)) = version_pages env t (Some f)"
  by (intro ext) (simp add: version_pages_def write_page_replace_if_truthy)

lemma one_per_resource_versioning_replace_if_truthy:
  "one_per_resource_versioning env t h (Some (replace_if_truthy f))
   = one_per_resource_versioning env t h (Some f)"
  by (intro ext)
     (simp add: one_per_resource_versioning_def versioning_pages_def
        version_pages_replace_if_truthy write_home_replace_if_truthy cong: sum.case_cong)

lemma dispatch_replace_if_truthy:
  "dispatch env (config\<lparr>output_contentFilter := Some (replace_if_truthy f)\<rparr>) docs w
   = dispatch env (config\<lparr>output_contentFilter := Some f\<rparr>) docs w"
  by (simp add: dispatch_def Let_def render_item_replace_if_truthy
        one_per_resource_replace_if_truthy one_per_resource_versioning_replace_if_truthy
      cong: if_cong FileSplitting.case_cong sum.case_cong option.case_cong)

lemma filtered_always_falsy: "\<forall>r. \<not> truthy (f r) \<Longrightarrow> filtered (Some f) = filtered None"
  by (rule ext) (simp add: filtered_def js_or_def)

lemma dispatch_always_falsy:
  assumes "\<forall>r. \<not> truthy (f r)"
  shows "dispatch env (config\<lparr>output_contentFilter := Some f\<rparr>) docs w
         = dispatch env (config\<lparr>output_contentFilter := None\<rparr>) docs w"
proof -
  have ri: "render_item env t (Some f) = render_item env t None" for t
    by (rule ext) (simp add: render_item_def filtered_always_falsy[OF assms] cong: sum.case_cong)
  have wp: "write_page env t (Some f) = write_page env t None" for t
    by (intro ext) (simp add: write_page_def ri)
  have wh: "write_home env h (Some f) = write_home env h None" for h
    by (intro ext) (simp add: write_home_def ri cong: option.case_cong if_cong)
  have vp: "version_pages env t (Some f) = version_pages env t None" for t
    by (intro ext) (simp add: version_pages_def wp)
  have o1: "one_per_resource env t (Some f) = one_per_resource env t None" for t
    by (intro ext) (simp add: one_per_resource_def wp)
  have o2: "one_per_resource_versioning env t h (Some f)
            = one_per_resource_versioning env t h None" for t h
    by (intro ext)
       (simp add: one_per_resource_versioning_def versioning_pages_def vp wh
             cong: sum.case_cong)
  show ?thesis
    by (simp add: dispatch_def Let_def ri o1 o2
          cong: if_cong FileSplitting.case_cong sum.case_cong option.case_cong)
qed

text \<open>
  C3: whenever the configured output content filter returns a falsy value for a rendered
  text, the original text is used, and a truthy result replaces it. The policy holds at
  every point of the dispatcher that invokes the filter (ReturnOnly and StdOut,
  AllInOne, OnePerResource, OnePerResourceVersioning with its home page): in every
  branch the dispatcher does with a filter what it does with the filter that keeps the
  original text where the given one is falsy, and a filter that is falsy everywhere
  leaves every output as it is without a filter.
\<close>

theorem output_contentFilter_replace_if_truthy:
  "(\<not> truthy (f rendered) \<longrightarrow> filtered (Some f) rendered = rendered)
   \<and> (truthy (f rendered) \<longrightarrow> JStr (filtered (Some f) rendered) = f rendered)
   \<and> dispatch env (config\<lparr>output_contentFilter := Some f\<rparr>) docs w
       = dispatch env (config\<lparr>output_contentFilter := Some (replace_if_truthy f)\<rparr>) docs w
   \<and> ((\<forall>r. \<not> truthy (f r)) \<longrightarrow>
        dispatch env (config\<lparr>output_contentFilter := Some f\<rparr>) docs w
        = dispatch env (config\<lparr>output_contentFilter := None\<rparr>) docs w)"
  using filtered_falsy[of f rendered] filtered_truthy[of f rendered]
    dispatch_replace_if_truthy[where f = f and env = env and config = config and docs = docs
      and w = w]
    dispatch_always_falsy[where f = f and env = env and config = config and docs = docs and w = w]
  by simp

theorem output_contentFilter_replace_if_truthy_witness:
  "\<not> truthy (demo_filter ''templates/index.njk|API:'')
   \<and> filtered (Some demo_filter) ''templates/index.njk|API:'' = ''templates/index.njk|API:''
   \<and> truthy (demo_filter ''users'')
   \<and> filtered (Some demo_filter) ''users'' = ''users!''
   \<and> render code_unit_order (demo_env empty_doc) (demo_output ReturnOnly AllInOne (Some demo_filter))
        demo_world
      = Inr (Some ''templates/index.njk|API:'', demo_world, [empty_doc])"
proof -
  have a: "\<not> truthy (demo_filter ''templates/index.njk|API:'')"
    by (simp add: demo_filter_def)
  have b: "truthy (demo_filter ''users'')"
    by (simp add: demo_filter_def)
  have c: "demo_filter ''users'' = JStr ''users!''"
    by (simp add: demo_filter_def)
  have d: "render code_unit_order (demo_env empty_doc) (demo_output ReturnOnly AllInOne (Some demo_filter))
             demo_world
           = Inr (Some ''templates/index.njk|API:'', demo_world, [empty_doc])"
    by (simp add: render_eval parse_eval empty_doc_def)
  from output_contentFilter_replace_if_truthy[of demo_filter "''templates/index.njk|API:''"] a
  have "filtered (Some demo_filter) ''templates/index.njk|API:'' = ''templates/index.njk|API:''"
    by blast
  moreover
  from output_contentFilter_replace_if_truthy[of demo_filter "''users''"] b c
  have "filtered (Some demo_filter) ''users'' = ''users!''"
    by simp
  ultimately show ?thesis using a b d by simp
qed

subsection \<open>Writing a file\<close>

lemma butlast_in_ancestors: "p \<noteq> [] \<Longrightarrow> butlast p \<in> set (ancestors p)"
  by (cases p) (simp_all add: ancestors_def)

lemma not_in_ancestors: "p \<notin> set (ancestors p)"
proof (cases p)
  case Nil
  then show ?thesis by (simp add: ancestors_def)
next
  case (Cons c cs)
  have "\<not> prefix p (butlast p)"
  proof
    assume "prefix p (butlast p)"
    then have "length p \<le> length (butlast p)" by (rule prefix_length_le)
    with Cons show False by (simp del: butlast.simps)
  qed
  with Cons show ?thesis by (simp add: ancestors_def)
qed

lemma write_output_fresh:
  assumes "p \<noteq> []" "\<not> existsSync s p"
    and "\<not> list_ex (\<lambda>a. fs_files s a \<noteq> None) (ancestors p)"
  shows "write_output s p data
         = Inr (s\<lparr>fs_dirs := fs_dirs s \<union> set (ancestors p),
                  fs_files := (fs_files s)(p \<mapsto> data)\<rparr>)"
proof -
  from assms have m: "mkdirp s p = Inr (s\<lparr>fs_dirs := fs_dirs s \<union> set (ancestors p)\<rparr>)"
    by (simp add: mkdirp_def)
  from assms have nd: "p \<notin> fs_dirs s" by (simp add: existsSync_def)
  from assms have bl: "butlast p \<in> set (ancestors p)" by (simp add: butlast_in_ancestors)
  show ?thesis
    using assms m nd bl not_in_ancestors[of p]
    by (simp add: write_output_def writeFileSync_def)
qed

lemma write_output_existing:
  assumes "p \<noteq> []" "fs_files s p = Some old" "p \<notin> fs_dirs s"
    and "butlast p = [] \<or> butlast p \<in> fs_dirs s"
  shows "write_output s p data = Inr (s\<lparr>fs_files := (fs_files s)(p \<mapsto> data)\<rparr>)"
  using assms by (auto simp: write_output_def writeFileSync_def existsSync_def)

lemma write_output_files:
  "write_output s p data = Inr s' \<Longrightarrow> fs_files s' = (fs_files s)(p \<mapsto> data)"
  by (auto simp: write_output_def mkdirp_def writeFileSync_def split: if_splits sum.splits)

lemma grown_refl: "grown_with_parents s s"
  by (auto simp: grown_with_parents_def)

lemma grown_trans:
  assumes "grown_with_parents s s'" "grown_with_parents s' s''"
  shows "grown_with_parents s s''"
  unfolding grown_with_parents_def
proof (intro conjI allI impI)
  show "fs_dirs s \<subseteq> fs_dirs s''"
    using assms by (auto simp: grown_with_parents_def)
next
  fix p assume "fs_files s p \<noteq> None"
  with assms show "fs_files s'' p \<noteq> None" by (simp add: grown_with_parents_def)
next
  fix p assume a: "fs_files s p = None \<and> fs_files s'' p \<noteq> None"
  show "p \<noteq> []"
  proof (cases "fs_files s' p = None")
    case True
    with a assms(2) show ?thesis by (simp add: grown_with_parents_def)
  next
    case False
    with a assms(1) show ?thesis by (simp add: grown_with_parents_def)
  qed
  show "set (ancestors p) \<subseteq> fs_dirs s''"
  proof (cases "fs_files s' p = None")
    case True
    with a assms(2) show ?thesis by (simp add: grown_with_parents_def)
  next
    case False
    with a assms(1) have "set (ancestors p) \<subseteq> fs_dirs s'"
      by (simp add: grown_with_parents_def)
    moreover from assms(2) have "fs_dirs s' \<subseteq> fs_dirs s''"
      by (simp add: grown_with_parents_def)
    ultimately show ?thesis by blast
  qed
qed

lemma write_output_grown:
  assumes "write_output s p data = Inr s'"
  shows "grown_with_parents s s'"
proof (cases "existsSync s p")
  case True
  with assms have w: "writeFileSync s p data = Inr s'" by (simp add: write_output_def)
  then have s': "s' = s\<lparr>fs_files := (fs_files s)(p \<mapsto> data)\<rparr>" and np: "p \<noteq> []" "p \<notin> fs_dirs s"
    by (auto simp: writeFileSync_def split: if_splits)
  from True np have "fs_files s p \<noteq> None" by (simp add: existsSync_def)
  with s' show ?thesis by (auto simp: grown_with_parents_def)
next
  case False
  with assms obtain s1 where m: "mkdirp s p = Inr s1" and w: "writeFileSync s1 p data = Inr s'"
    by (auto simp: write_output_def split: sum.splits)
  from m have s1: "s1 = s\<lparr>fs_dirs := fs_dirs s \<union> set (ancestors p)\<rparr>"
    by (auto simp: mkdirp_def split: if_splits)
  from w have s': "s' = s1\<lparr>fs_files := (fs_files s1)(p \<mapsto> data)\<rparr>" and np: "p \<noteq> []"
    by (auto simp: writeFileSync_def split: if_splits)
  from s1 s' np show ?thesis by (auto simp: grown_with_parents_def)
qed

lemma write_page_Some:
  assumes "render_item env t cf (set_resources (Some [res]) item) = Inr page"
  shows "write_page env t cf (Some out) ext name res (item, s)
         = (case write_output s (path_join out (name @ ext)) page of
              Inl e \<Rightarrow> Inl e
            | Inr s' \<Rightarrow> Inr (set_resources (Some [res]) item, s'))"
  using assms by (simp add: write_page_def Let_def)

lemma write_home_Some:
  assumes "h \<noteq> []" "render_item env (path_resolve (cwd env) h) cf item = Inr page"
  shows "write_home env (Some h) cf (Some out) ext item s
         = write_output s (path_join out (''Home'' @ ext)) page"
  using assms by (simp add: write_home_def)

lemma write_page_grown:
  assumes "write_page env t cf outputPath ext name res (item, s) = Inr (item', s')"
  shows "grown_with_parents s s'"
proof -
  from assms obtain page out
    where "write_output s (path_join out (name @ ext)) page = Inr s'"
    by (auto simp: write_page_def Let_def split: sum.splits option.splits)
  then show ?thesis by (rule write_output_grown)
qed

lemma write_home_grown:
  assumes "write_home env homeTemplate cf outputPath ext item s = Inr s'"
  shows "grown_with_parents s s'"
proof (cases "homeTemplate = None \<or> homeTemplate = Some []")
  case True
  with assms have "s' = s" by (auto simp: write_home_def)
  then show ?thesis by (simp add: grown_refl)
next
  case False
  with assms obtain page out
    where "write_output s (path_join out (''Home'' @ ext)) page = Inr s'"
    by (auto simp: write_home_def split: sum.splits option.splits if_splits)
  then show ?thesis by (rule write_output_grown)
qed

lemma helper_each_grown:
  assumes "\<And>x a s a' s'. f x (a, s) = Inr (a', s') \<Longrightarrow> grown_with_parents s s'"
  shows "helper_each f xs (a, s) = Inr (a', s') \<Longrightarrow> grown_with_parents s s'"
proof (induction xs arbitrary: a s)
  case Nil
  then show ?case by (simp add: grown_refl)
next
  case (Cons x xs)
  from Cons.prems obtain a1 s1
    where 1: "f x (a, s) = Inr (a1, s1)" and 2: "helper_each f xs (a1, s1) = Inr (a', s')"
    by (auto split: sum.splits)
  from assms[OF 1] Cons.IH[OF 2] show ?case by (rule grown_trans)
qed

lemma one_per_resource_grown:
  assumes "one_per_resource env t cf outputPath ext item s = Inr (item', s')"
  shows "grown_with_parents s s'"
  using assms unfolding one_per_resource_def
  by (rule helper_each_grown[rotated]) (rule write_page_grown)

lemma version_pages_grown:
  assumes "version_pages env t cf outputPath ext version (item, s) = Inr (item', s')"
  shows "grown_with_parents s s'"
  using assms unfolding version_pages_def
  by (rule helper_each_grown[rotated]) (rule write_page_grown)

lemma one_per_resource_versioning_grown:
  assumes "one_per_resource_versioning env t h cf outputPath ext item s = Inr (item', s')"
  shows "grown_with_parents s s'"
proof -
  from assms obtain sorted s1
    where wh: "write_home env h cf outputPath ext sorted s = Inr s1"
      and he: "helper_each (version_pages env t cf outputPath ext) (elements (resources sorted))
                 (sorted, s1) = Inr (item', s')"
    by (auto simp: one_per_resource_versioning_def versioning_pages_def split: sum.splits)
  have "grown_with_parents s1 s'"
    using he by (rule helper_each_grown[rotated]) (rule version_pages_grown)
  with write_home_grown[OF wh] show ?thesis by (rule grown_trans)
qed

lemma each_item_grown:
  assumes "\<And>item s item' s'. f item s = Inr (item', s') \<Longrightarrow> grown_with_parents s s'"
  shows "each_item f docs s = Inr (docs', s') \<Longrightarrow> grown_with_parents s s'"
proof (induction docs arbitrary: s docs')
  case Nil
  then show ?case by (simp add: grown_refl)
next
  case (Cons d ds)
  from Cons.prems obtain d1 s1 ds1
    where 1: "f d s = Inr (d1, s1)" and 2: "each_item f ds s1 = Inr (ds1, s')"
    by (auto split: sum.splits prod.splits)
  from assms[OF 1] Cons.IH[OF 2] show ?case by (rule grown_trans)
qed

lemma dispatch_File_grown:
  assumes "output_type config = File" "dispatch env config docs w = Inr (r, w', docs')"
  shows "grown_with_parents (w_fs w) (w_fs w')"
proof (cases "output_file_splitting config")
  case AllInOne
  with assms obtain page out where "write_output (w_fs w) out page = Inr (w_fs w')"
    by (auto simp: dispatch_def Let_def split: sum.splits option.splits if_splits)
  then show ?thesis by (rule write_output_grown)
next
  case OnePerResource
  with assms obtain t cf op ext s'
    where "each_item (one_per_resource env t cf op ext) docs (w_fs w) = Inr (docs', s')"
      and "w_fs w' = s'"
    by (auto simp: dispatch_def Let_def split: sum.splits)
  moreover have "grown_with_parents s1 s2"
    if "one_per_resource env t cf op ext item s1 = Inr (item', s2)" for item s1 item' s2
    using that by (rule one_per_resource_grown)
  ultimately show ?thesis
    using each_item_grown[of "one_per_resource env t cf op ext" docs "w_fs w" docs' s']
    by simp
next
  case OnePerResourceVersioning
  with assms obtain t h cf op ext s'
    where "each_item (one_per_resource_versioning env t h cf op ext) docs (w_fs w)
           = Inr (docs', s')"
      and "w_fs w' = s'"
    by (auto simp: dispatch_def Let_def split: sum.splits)
  moreover have "grown_with_parents s1 s2"
    if "one_per_resource_versioning env t h cf op ext item s1 = Inr (item', s2)"
    for item s1 item' s2
    using that by (rule one_per_resource_versioning_grown)
  ultimately show ?thesis
    using each_item_grown[of "one_per_resource_versioning env t h cf op ext" docs "w_fs w"
        docs' s']
    by simp
qed

lemma dispatch_AllInOne:
  assumes "output_type config = File" "output_file_splitting config = AllInOne"
    and "helper_map
           (render_item env (path_resolve (cwd env) (input_templateFile config))
              (output_contentFilter config)) docs = Inr texts"
    and "output_file_path config = Some out" "out \<noteq> []"
  shows "dispatch env config docs w
         = (case write_output (w_fs w) (path_resolve (cwd env) out)
                  (js_join [CHR 0x0A, CHR 0x0A, CHR 0x0A] texts) of
              Inl e \<Rightarrow> Inl e
            | Inr s' \<Rightarrow> Inr (None, w\<lparr>w_fs := s'\<rparr>, docs))"
  using assms by (simp add: dispatch_def Let_def)

text \<open>
  C9: every write of the File branches, the one file of AllInOne, the page of a resource
  in OnePerResource and OnePerResourceVersioning, and the home page, is the write
  \<open>write_output\<close> of the rendered text. When the parent directory of the target path
  does not exist (and so the target does not either), \<open>write_output\<close> creates every
  directory above the target and writes the file, unless a regular file is in the way of
  the directories; when the target file exists in its directory, it overwrites it with
  the new content and changes nothing else. A File branch that resolves has lost no
  file and no directory, and every file that is new lies below directories that exist.
\<close>

theorem file_branches_create_parent_and_overwrite:
  "(p \<noteq> [] \<and> \<not> existsSync s (butlast p) \<and> \<not> existsSync s p
      \<and> \<not> list_ex (\<lambda>a. fs_files s a \<noteq> None) (ancestors p)
    \<longrightarrow> write_output s p data
          = Inr (s\<lparr>fs_dirs := fs_dirs s \<union> set (ancestors p),
                   fs_files := (fs_files s)(p \<mapsto> data)\<rparr>)
        \<and> butlast p \<in> fs_dirs s \<union> set (ancestors p))
   \<and> (p \<noteq> [] \<and> fs_files s p = Some old \<and> p \<notin> fs_dirs s
      \<and> (butlast p = [] \<or> butlast p \<in> fs_dirs s)
    \<longrightarrow> write_output s p data = Inr (s\<lparr>fs_files := (fs_files s)(p \<mapsto> data)\<rparr>))
   \<and> (output_type config = File \<and> output_file_splitting config = AllInOne
      \<and> helper_map
           (render_item env (path_resolve (cwd env) (input_templateFile config))
              (output_contentFilter config)) docs = Inr texts
      \<and> output_file_path config = Some out \<and> out \<noteq> []
    \<longrightarrow> dispatch env config docs w
          = (case write_output (w_fs w) (path_resolve (cwd env) out)
                   (js_join [CHR 0x0A, CHR 0x0A, CHR 0x0A] texts) of
               Inl e \<Rightarrow> Inl e
             | Inr s' \<Rightarrow> Inr (None, w\<lparr>w_fs := s'\<rparr>, docs)))
   \<and> (render_item env t cf (set_resources (Some [res]) item) = Inr page
    \<longrightarrow> write_page env t cf (Some dir) ext name res (item, s)
          = (case write_output s (path_join dir (name @ ext)) page of
               Inl e \<Rightarrow> Inl e
             | Inr s' \<Rightarrow> Inr (set_resources (Some [res]) item, s')))
   \<and> (h \<noteq> [] \<and> render_item env (path_resolve (cwd env) h) cf item = Inr home
    \<longrightarrow> write_home env (Some h) cf (Some dir) ext item s
          = write_output s (path_join dir (''Home'' @ ext)) home)
   \<and> (output_type config = File \<and> dispatch env config docs w = Inr (r, w', docs')
    \<longrightarrow> grown_with_parents (w_fs w) (w_fs w'))"
proof -
  have 1: "write_output s p data
          = Inr (s\<lparr>fs_dirs := fs_dirs s \<union> set (ancestors p),
                   fs_files := (fs_files s)(p \<mapsto> data)\<rparr>)
        \<and> butlast p \<in> fs_dirs s \<union> set (ancestors p)"
    if "p \<noteq> [] \<and> \<not> existsSync s (butlast p) \<and> \<not> existsSync s p
      \<and> \<not> list_ex (\<lambda>a. fs_files s a \<noteq> None) (ancestors p)"
    using that write_output_fresh[of p s data] butlast_in_ancestors[of p] by simp
  have 2: "write_output s p data = Inr (s\<lparr>fs_files := (fs_files s)(p \<mapsto> data)\<rparr>)"
    if "p \<noteq> [] \<and> fs_files s p = Some old \<and> p \<notin> fs_dirs s
      \<and> (butlast p = [] \<or> butlast p \<in> fs_dirs s)"
    using that write_output_existing[of p s old data] by blast
  have 3: "dispatch env config docs w
          = (case write_output (w_fs w) (path_resolve (cwd env) out)
                   (js_join [CHR 0x0A, CHR 0x0A, CHR 0x0A] texts) of
               Inl e \<Rightarrow> Inl e
             | Inr s' \<Rightarrow> Inr (None, w\<lparr>w_fs := s'\<rparr>, docs))"
    if "output_type config = File \<and> output_file_splitting config = AllInOne
      \<and> helper_map
           (render_item env (path_resolve (cwd env) (input_templateFile config))
              (output_contentFilter config)) docs = Inr texts
      \<and> output_file_path config = Some out \<and> out \<noteq> []"
    using that by (intro dispatch_AllInOne) simp_all
  have 4: "write_page env t cf (Some dir) ext name res (item, s)
          = (case write_output s (path_join dir (name @ ext)) page of
               Inl e \<Rightarrow> Inl e
             | Inr s' \<Rightarrow> Inr (set_resources (Some [res]) item, s'))"
    if "render_item env t cf (set_resources (Some [res]) item) = Inr page"
    using that by (rule write_page_Some)
  have 5: "write_home env (Some h) cf (Some dir) ext item s
          = write_output s (path_join dir (''Home'' @ ext)) home"
    if "h \<noteq> [] \<and> render_item env (path_resolve (cwd env) h) cf item = Inr home"
    using that by (intro write_home_Some) simp_all
  have 6: "grown_with_parents (w_fs w) (w_fs w')"
    if "output_type config = File \<and> dispatch env config docs w = Inr (r, w', docs')"
    using that by (intro dispatch_File_grown[of config env docs w r w' docs']) simp_all
  show ?thesis
    by (intro conjI impI[OF 1] impI[OF 2] impI[OF 3] impI[OF 4] impI[OF 5] impI[OF 6])
       simp_all
qed

theorem file_branches_create_parent_and_overwrite_witness:
  "\<not> existsSync (w_fs demo_world) [''out'', ''site'']
   \<and> dispatch (demo_env versioned_doc) all_in_one_config [versioned_doc] demo_world
       = Inr (None, demo_world\<lparr>w_fs := site_all\<rparr>, [versioned_doc])
   \<and> fs_files site_all [''out'', ''site'', ''all.md''] = Some ''templates/index.njk|API:/v1''
   \<and> dispatch (demo_env versioned_doc) all_in_one_config [empty_doc]
         (demo_world\<lparr>w_fs := site_all\<rparr>)
       = Inr (None,
              demo_world
                \<lparr>w_fs := site_all
                   \<lparr>fs_files :=
                      (fs_files site_all)
                        ([''out'', ''site'', ''all.md''] \<mapsto> ''templates/index.njk|API:'')\<rparr>\<rparr>,
              [empty_doc])
   \<and> write_home (demo_env versioned_doc) (Some ''home.njk'') None (Some [''out'', ''site''])
         ''.md'' versioned_doc (w_fs demo_world)
       = Inr site_home
   \<and> write_page (demo_env versioned_doc) [''templates'', ''index.njk''] None
         (Some [''out'', ''site'']) ''.md'' ''/users'' (endpoint ''/users'')
         (versioned_doc, w_fs demo_world)
       = Inr (set_resources (Some [endpoint ''/users'']) versioned_doc,
              \<lparr> fs_dirs = {[], [''out''], [''out'', ''site'']},
                fs_files = [[''out'', ''site'', ''users.md''] \<mapsto> ''templates/index.njk|API:/users''] \<rparr>)
   \<and> dispatch (demo_env versioned_doc) (per_resource_config OnePerResource) [versioned_doc]
         demo_world
       = Inr (None, demo_world\<lparr>w_fs := site_resource\<rparr>, [after_one_per_resource])
   \<and> grown_with_parents (w_fs demo_world) site_resource
   \<and> dispatch (demo_env versioned_doc) (per_resource_config OnePerResourceVersioning)
         [versioned_doc] demo_world
       = Inr (None, demo_world\<lparr>w_fs := site_versions\<rparr>, [after_versioning])
   \<and> grown_with_parents (w_fs demo_world) site_versions"
proof -
  let ?env = "demo_env versioned_doc"
  let ?s0 = "w_fs demo_world"
  let ?all = "[''out'', ''site'', ''all.md'']"
  let ?T = "[''templates'', ''index.njk'']"
  note main = file_branches_create_parent_and_overwrite
  have c: "output_type all_in_one_config = File"
    "output_file_splitting all_in_one_config = AllInOne"
    "output_file_path all_in_one_config = Some ''/out/site/all.md''"
    "path_resolve (cwd ?env) (input_templateFile all_in_one_config) = ?T"
    "output_contentFilter all_in_one_config = None"
    "path_resolve (cwd ?env) ''/out/site/all.md'' = ?all"
    by (simp_all add: all_in_one_config_def extend_config_def demo_output_def DefaultConfig_def
        demo_paths_def no_config_def demo_env_def path_resolve_def)
  have fresh: "?all \<noteq> [] \<and> \<not> existsSync ?s0 (butlast ?all) \<and> \<not> existsSync ?s0 ?all
               \<and> \<not> list_ex (\<lambda>a. fs_files ?s0 a \<noteq> None) (ancestors ?all)"
    by (simp add: existsSync_def demo_world_def ancestors_def)
  have m1: "helper_map (render_item ?env ?T None) [versioned_doc]
            = Inr [''templates/index.njk|API:/v1'']"
    by (simp add: render_item_def filtered_def js_or_def demo_env_def elements_def
        versioned_doc_def)
  have w1: "write_output ?s0 ?all ''templates/index.njk|API:/v1'' = Inr site_all"
    using main[where p = ?all and s = ?s0 and data = "''templates/index.njk|API:/v1''"] fresh
    by (auto simp: demo_world_def ancestors_def site_all_def)
  have r1: "dispatch ?env all_in_one_config [versioned_doc] demo_world
            = Inr (None, demo_world\<lparr>w_fs := site_all\<rparr>, [versioned_doc])"
    using main[where config = all_in_one_config and env = ?env and docs = "[versioned_doc]"
        and texts = "[''templates/index.njk|API:/v1'']" and out = "''/out/site/all.md''"
        and w = demo_world] c m1 w1
    by simp
  have exist: "?all \<noteq> [] \<and> fs_files site_all ?all = Some ''templates/index.njk|API:/v1''
               \<and> ?all \<notin> fs_dirs site_all
               \<and> (butlast ?all = [] \<or> butlast ?all \<in> fs_dirs site_all)"
    by (simp add: site_all_def)
  have m2: "helper_map (render_item ?env ?T None) [empty_doc] = Inr [''templates/index.njk|API:'']"
    by (simp add: render_item_def filtered_def js_or_def demo_env_def elements_def empty_doc_def)
  have w2: "write_output site_all ?all ''templates/index.njk|API:''
            = Inr (site_all\<lparr>fs_files := (fs_files site_all)(?all \<mapsto> ''templates/index.njk|API:'')\<rparr>)"
    using main[where p = ?all and s = site_all and old = "''templates/index.njk|API:/v1''"
        and data = "''templates/index.njk|API:''"] exist
    by blast
  have r2: "dispatch ?env all_in_one_config [empty_doc] (demo_world\<lparr>w_fs := site_all\<rparr>)
            = Inr (None,
                   demo_world
                     \<lparr>w_fs := site_all
                        \<lparr>fs_files :=
                           (fs_files site_all)(?all \<mapsto> ''templates/index.njk|API:'')\<rparr>\<rparr>,
                   [empty_doc])"
    using main[where config = all_in_one_config and env = ?env and docs = "[empty_doc]"
        and texts = "[''templates/index.njk|API:'']" and out = "''/out/site/all.md''"
        and w = "demo_world\<lparr>w_fs := site_all\<rparr>"] c m2 w2
    by simp
  have hm: "''home.njk'' \<noteq> [] \<and> render_item ?env (path_resolve (cwd ?env) ''home.njk'') None
              versioned_doc = Inr ''work/home.njk|API:/v1''"
    by (simp add: render_item_def filtered_def js_or_def demo_env_def elements_def
        versioned_doc_def path_resolve_def)
  have wh: "write_output ?s0 (path_join [''out'', ''site''] (''Home'' @ ''.md''))
              ''work/home.njk|API:/v1'' = Inr site_home"
    by (simp add: render_eval site_home_def)
  have r3: "write_home ?env (Some ''home.njk'') None (Some [''out'', ''site'']) ''.md''
              versioned_doc ?s0 = Inr site_home"
    using main[where h = "''home.njk''" and env = ?env and cf = None and item = versioned_doc
        and home = "''work/home.njk|API:/v1''" and dir = "[''out'', ''site'']" and ext = "''.md''"
        and s = ?s0] hm wh
    by simp
  have pm: "render_item ?env ?T None (set_resources (Some [endpoint ''/users'']) versioned_doc)
            = Inr ''templates/index.njk|API:/users''"
    by (simp add: render_item_def filtered_def js_or_def demo_env_def elements_def
        versioned_doc_def endpoint_def)
  have wp: "write_output ?s0 (path_join [''out'', ''site''] (''/users'' @ ''.md''))
              ''templates/index.njk|API:/users''
            = Inr \<lparr> fs_dirs = {[], [''out''], [''out'', ''site'']},
                    fs_files = [[''out'', ''site'', ''users.md''] \<mapsto> ''templates/index.njk|API:/users''] \<rparr>"
    by (simp add: render_eval)
  have r4: "write_page ?env ?T None (Some [''out'', ''site'']) ''.md'' ''/users'' (endpoint ''/users'')
              (versioned_doc, ?s0)
            = Inr (set_resources (Some [endpoint ''/users'']) versioned_doc,
                   \<lparr> fs_dirs = {[], [''out''], [''out'', ''site'']},
                     fs_files = [[''out'', ''site'', ''users.md''] \<mapsto> ''templates/index.njk|API:/users''] \<rparr>)"
    using main[where env = ?env and t = ?T and cf = None and res = "endpoint ''/users''"
        and item = versioned_doc and page = "''templates/index.njk|API:/users''"
        and dir = "[''out'', ''site'']" and ext = "''.md''" and name = "''/users''" and s = ?s0]
      pm wp
    by simp
  have r5: "dispatch ?env (per_resource_config OnePerResource) [versioned_doc] demo_world
            = Inr (None, demo_world\<lparr>w_fs := site_resource\<rparr>, [after_one_per_resource])"
    by (simp add: per_resource_config_def render_eval parse_eval versioned_doc_def
        after_one_per_resource_def site_resource_def)
  have r6: "dispatch ?env (per_resource_config OnePerResourceVersioning) [versioned_doc] demo_world
            = Inr (None, demo_world\<lparr>w_fs := site_versions\<rparr>, [after_versioning])"
    by (simp add: per_resource_config_def render_eval parse_eval versioned_doc_def js_sort_def
        after_versioning_def site_versions_def)
  have t: "output_type (per_resource_config OnePerResource) = File"
    "output_type (per_resource_config OnePerResourceVersioning) = File"
    by (simp_all add: per_resource_config_def extend_config_def demo_output_def)
  have g5: "grown_with_parents ?s0 site_resource"
    using main[where config = "per_resource_config OnePerResource" and env = ?env
        and docs = "[versioned_doc]" and w = demo_world and r = None
        and w' = "demo_world\<lparr>w_fs := site_resource\<rparr>" and docs' = "[after_one_per_resource]"]
      t(1) r5
    by simp
  have g6: "grown_with_parents ?s0 site_versions"
    using main[where config = "per_resource_config OnePerResourceVersioning" and env = ?env
        and docs = "[versioned_doc]" and w = demo_world and r = None
        and w' = "demo_world\<lparr>w_fs := site_versions\<rparr>" and docs' = "[after_versioning]"]
      t(2) r6
    by simp
  from fresh exist r1 r2 r3 r4 r5 r6 g5 g6 show ?thesis by simp
qed

subsection \<open>One joined text\<close>

lemma helper_map_all2:
  "helper_map f xs = Inr ys \<Longrightarrow> list_all2 (\<lambda>x y. f x = Inr y) xs ys"
proof (induction xs arbitrary: ys)
  case Nil
  then show ?case by simp
next
  case (Cons x xs)
  then show ?case by (auto split: sum.splits)
qed

text \<open>
  C7: let \<open>texts\<close> be the per-document texts, each the template's rendering of the
  document put through the output content filter. With ReturnOnly, \<^verbatim>\<open>render\<close> resolves
  with exactly these texts joined by three line feeds (\<^verbatim>\<open>"\n\n\n"\<close>), and neither the
  file system nor the standard output changes. With File and AllInOne, \<^verbatim>\<open>render\<close>
  resolves whenever the write of the configured output file succeeds, with no value; the
  same joined text is what the file holds then, no other file changes and nothing is
  printed.
\<close>

theorem render_joins_rendered_documents:
  assumes "config = extend_config (DefaultConfig (dirname env)) user"
    and "parse ck env (as_user_config config) = Inr docs"
    and "helper_map
           (render_item env (path_resolve (cwd env) (input_templateFile config))
              (output_contentFilter config)) docs = Inr texts"
  shows "list_all2
           (\<lambda>doc text. \<exists>rendered.
               nunjucks_render env (path_resolve (cwd env) (input_templateFile config)) doc
                 = Inr rendered
               \<and> text = filtered (output_contentFilter config) rendered)
           docs texts
         \<and> (output_type config = ReturnOnly \<longrightarrow>
              render ck env user w
              = Inr (Some (js_join [CHR 0x0A, CHR 0x0A, CHR 0x0A] texts), w, docs))
         \<and> (output_type config = File \<and> output_file_splitting config = AllInOne
              \<and> output_file_path config = Some out \<and> out \<noteq> []
              \<and> write_output (w_fs w) (path_resolve (cwd env) out)
                    (js_join [CHR 0x0A, CHR 0x0A, CHR 0x0A] texts) = Inr s' \<longrightarrow>
              render ck env user w = Inr (None, w\<lparr>w_fs := s'\<rparr>, docs)
              \<and> fs_files s'
                  = (fs_files (w_fs w))
                      (path_resolve (cwd env) out \<mapsto> js_join [CHR 0x0A, CHR 0x0A, CHR 0x0A] texts))
         \<and> (output_type config = File \<and> output_file_splitting config = AllInOne
              \<and> render ck env user w = Inr (r, w', docs') \<longrightarrow>
              (\<exists>out. output_file_path config = Some out
                 \<and> fs_files (w_fs w')
                     = (fs_files (w_fs w))
                         (path_resolve (cwd env) out
                            \<mapsto> js_join [CHR 0x0A, CHR 0x0A, CHR 0x0A] texts))
              \<and> r = None \<and> w_stdout w' = w_stdout w \<and> docs' = docs)"
proof -
  let ?T = "path_resolve (cwd env) (input_templateFile config)"
  let ?cf = "output_contentFilter config"
  let ?joined = "js_join [CHR 0x0A, CHR 0x0A, CHR 0x0A] texts"
  have "list_all2 (\<lambda>doc text. render_item env ?T ?cf doc = Inr text) docs texts"
    using assms(3) by (rule helper_map_all2)
  then have 1: "list_all2
           (\<lambda>doc text. \<exists>rendered.
               nunjucks_render env ?T doc = Inr rendered \<and> text = filtered ?cf rendered)
           docs texts"
    by (rule list_all2_mono) (auto simp: render_item_def split: sum.splits)
  have 2: "render ck env user w = Inr (Some ?joined, w, docs)"
    if "output_type config = ReturnOnly"
    using that assms by (simp add: render_def dispatch_def Let_def)
  have 3: "render ck env user w = Inr (None, w\<lparr>w_fs := s'\<rparr>, docs)
           \<and> fs_files s' = (fs_files (w_fs w))(path_resolve (cwd env) out \<mapsto> ?joined)"
    if a: "output_type config = File \<and> output_file_splitting config = AllInOne
           \<and> output_file_path config = Some out \<and> out \<noteq> []
           \<and> write_output (w_fs w) (path_resolve (cwd env) out) ?joined = Inr s'"
  proof -
    from a have "dispatch env config docs w = Inr (None, w\<lparr>w_fs := s'\<rparr>, docs)"
      using dispatch_AllInOne[of config env docs texts out w] assms(3) by simp
    then have "render ck env user w = Inr (None, w\<lparr>w_fs := s'\<rparr>, docs)"
      using assms(1,2) by (simp add: render_def Let_def)
    moreover from a have "fs_files s' = (fs_files (w_fs w))(path_resolve (cwd env) out \<mapsto> ?joined)"
      by (simp add: write_output_files)
    ultimately show ?thesis by simp
  qed
  have 4: "(\<exists>out. output_file_path config = Some out
                 \<and> fs_files (w_fs w') = (fs_files (w_fs w))(path_resolve (cwd env) out \<mapsto> ?joined))
              \<and> r = None \<and> w_stdout w' = w_stdout w \<and> docs' = docs"
    if a: "output_type config = File \<and> output_file_splitting config = AllInOne
              \<and> render ck env user w = Inr (r, w', docs')"
  proof -
    from a have d: "dispatch env config docs w = Inr (r, w', docs')"
      using assms(1,2) by (simp add: render_def Let_def)
    from d a assms(3) obtain out s1
      where o: "output_file_path config = Some out"
        and wr: "write_output (w_fs w) (path_resolve (cwd env) out) ?joined = Inr s1"
        and res: "r = None" "w' = w\<lparr>w_fs := s1\<rparr>" "docs' = docs"
      by (auto simp: dispatch_def Let_def split: option.splits sum.splits if_splits)
    from write_output_files[OF wr] o res show ?thesis by simp
  qed
  from 1 2 3 4 show ?thesis by blast
qed

theorem render_joins_rendered_documents_witness:
  "render code_unit_order titled_env (three_documents ReturnOnly) demo_world
   = Inr (Some (''/docs/a.raml!'' @ [CHR 0x0A, CHR 0x0A, CHR 0x0A] @ ''/docs/b.raml!''
                  @ [CHR 0x0A, CHR 0x0A, CHR 0x0A] @ ''/docs/c.raml!''),
          demo_world, [titled ''/docs/a.raml'', titled ''/docs/b.raml'', titled ''/docs/c.raml''])
   \<and> render code_unit_order titled_env (three_documents File) demo_world
     = Inr (None, demo_world\<lparr>w_fs := three_joined\<rparr>,
            [titled ''/docs/a.raml'', titled ''/docs/b.raml'', titled ''/docs/c.raml''])
   \<and> fs_files three_joined [''out'']
     = Some (''/docs/a.raml!'' @ [CHR 0x0A, CHR 0x0A, CHR 0x0A] @ ''/docs/b.raml!''
               @ [CHR 0x0A, CHR 0x0A, CHR 0x0A] @ ''/docs/c.raml!'')
   \<and> fs_files (w_fs demo_world) [''out''] = None"
proof -
  let ?docs = "[titled ''/docs/a.raml'', titled ''/docs/b.raml'', titled ''/docs/c.raml'']"
  let ?texts = "[''/docs/a.raml!'', ''/docs/b.raml!'', ''/docs/c.raml!'']"
  let ?c1 = "extend_config (DefaultConfig (dirname titled_env)) (three_documents ReturnOnly)"
  let ?c2 = "extend_config (DefaultConfig (dirname titled_env)) (three_documents File)"
  have p: "parse code_unit_order titled_env (as_user_config ?c1) = Inr ?docs"
    "parse code_unit_order titled_env (as_user_config ?c2) = Inr ?docs"
    by (simp_all add: as_user_config_def three_documents_def demo_output_def parse_def
        extend_config_def DefaultConfig_def no_config_def load_path_def fileFilter_predicate_def
        listFiles_def path_resolve_def new_RegExp_def RegExp_test_def line_terminator_def
        normalize_def unwindArray_def deepKeys_def callback_def sort_props_def js_sort_def
        demo_paths_def titled_env_def titled_def)
  have m: "helper_map
             (render_item titled_env (path_resolve (cwd titled_env) (input_templateFile ?c1))
                (output_contentFilter ?c1)) ?docs = Inr ?texts"
    "helper_map
             (render_item titled_env (path_resolve (cwd titled_env) (input_templateFile ?c2))
                (output_contentFilter ?c2)) ?docs = Inr ?texts"
    by (simp_all add: three_documents_def demo_output_def extend_config_def render_item_def
        filtered_def js_or_def demo_filter_def titled_env_def titled_def)
  have t: "output_type ?c1 = ReturnOnly" "output_type ?c2 = File"
    "output_file_splitting ?c2 = AllInOne" "output_file_path ?c2 = Some ''/out''"
    by (simp_all add: three_documents_def demo_output_def extend_config_def)
  have w: "write_output (w_fs demo_world) (path_resolve (cwd titled_env) ''/out'')
             (js_join [CHR 0x0A, CHR 0x0A, CHR 0x0A] ?texts) = Inr three_joined"
    by (auto simp: write_output_def existsSync_def mkdirp_def ancestors_def writeFileSync_def
        demo_world_def titled_env_def path_resolve_def three_joined_def)
  note returned = render_joins_rendered_documents[where w = demo_world, OF refl p(1) m(1),
      THEN conjunct2, THEN conjunct1]
  note written = render_joins_rendered_documents[where w = demo_world and out = "''/out''"
      and s' = three_joined, OF refl p(2) m(2), THEN conjunct2, THEN conjunct2, THEN conjunct1]
  from returned t(1)
  have 1: "render code_unit_order titled_env (three_documents ReturnOnly) demo_world
           = Inr (Some (''/docs/a.raml!'' @ [CHR 0x0A, CHR 0x0A, CHR 0x0A] @ ''/docs/b.raml!''
                          @ [CHR 0x0A, CHR 0x0A, CHR 0x0A] @ ''/docs/c.raml!''),
                  demo_world, ?docs)"
    by simp
  from written t(2,3,4) w
  have 2: "render code_unit_order titled_env (three_documents File) demo_world
           = Inr (None, demo_world\<lparr>w_fs := three_joined\<rparr>, ?docs)"
    by simp
  from 1 2 show ?thesis by (simp add: three_joined_def demo_world_def)
qed


subsection \<open>The documents after the per-resource branches\<close>

lemma set_resources_twice [simp]: "set_resources v (set_resources u item) = set_resources v item"
  by (cases item) simp

lemma resources_set_resources [simp]: "resources (set_resources v item) = v"
  by (cases item) simp

lemma write_page_item:
  "write_page env t cf out ext name res (item, s) = Inr (item', s')
   \<Longrightarrow> item' = set_resources (Some [res]) item"
  by (auto simp: write_page_def Let_def split: sum.splits option.splits)

lemma each_write_page_item:
  "helper_each (\<lambda>res. write_page env t cf out ext (name res) res) rs (item, s) = Inr (item', s')
   \<Longrightarrow> item' = (if rs = [] then item else set_resources (Some [last rs]) item)"
proof (induction rs arbitrary: item s)
  case Nil
  then show ?case by simp
next
  case (Cons r rs)
  from Cons.prems obtain item1 s1
    where w: "write_page env t cf out ext (name r) r (item, s) = Inr (item1, s1)"
      and e: "helper_each (\<lambda>res. write_page env t cf out ext (name res) res) rs (item1, s1)
              = Inr (item', s')"
    by (auto split: sum.splits)
  from write_page_item[OF w] have i1: "item1 = set_resources (Some [r]) item" .
  from Cons.IH[OF e] i1 show ?case by simp
qed

lemma one_per_resource_item:
  assumes "one_per_resource env t cf out ext item s = Inr (item', s')"
  shows "item' = (if elements (resources item) = [] then item
                  else set_resources (Some [last (elements (resources item))]) item)"
  using assms unfolding one_per_resource_def by (rule each_write_page_item)

lemma version_pages_item:
  assumes "version_pages env t cf out ext version (item, s) = Inr (item', s')"
  shows "item' = (if elements (resources version) = [] then item
                  else set_resources (Some [last (elements (resources version))]) item)"
  using assms unfolding version_pages_def by (rule each_write_page_item)

lemma each_version_pages_item:
  "helper_each (version_pages env t cf out ext) versions (item, s) = Inr (item', s')
   \<Longrightarrow> item' = (if concat (map (\<lambda>version. elements (resources version)) versions) = [] then item
                  else set_resources
                         (Some [last (concat (map (\<lambda>version. elements (resources version)) versions))])
                         item)"
proof (induction versions arbitrary: item s)
  case Nil
  then show ?case by simp
next
  case (Cons v vs)
  from Cons.prems obtain item1 s1
    where w: "version_pages env t cf out ext v (item, s) = Inr (item1, s1)"
      and e: "helper_each (version_pages env t cf out ext) vs (item1, s1) = Inr (item', s')"
    by (auto split: sum.splits)
  define ev where "ev = elements (resources v)"
  define rest where "rest = concat (map (\<lambda>version. elements (resources version)) vs)"
  have i1: "item1 = (if ev = [] then item else set_resources (Some [last ev]) item)"
    using version_pages_item[OF w] by (simp add: ev_def)
  have i2: "item' = (if rest = [] then item1 else set_resources (Some [last rest]) item1)"
    using Cons.IH[OF e] by (simp add: rest_def)
  have "item' = (if ev @ rest = [] then item else set_resources (Some [last (ev @ rest)]) item)"
    using i1 i2 by (cases "rest = []"; cases "ev = []") simp_all
  then show ?case by (simp add: ev_def rest_def)
qed

lemma one_per_resource_versioning_item:
  assumes "one_per_resource_versioning env t h cf out ext item s = Inr (item', s')"
  shows "\<exists>sorted. sort_versions item = Inr sorted
           \<and> item' = (if rendered_endpoints sorted = [] then sorted
                       else set_resources (Some [last (rendered_endpoints sorted)]) sorted)"
proof -
  from assms obtain sorted s1
    where so: "sort_versions item = Inr sorted"
      and e: "helper_each (version_pages env t cf out ext) (elements (resources sorted))
                (sorted, s1) = Inr (item', s')"
    by (auto simp: one_per_resource_versioning_def versioning_pages_def split: sum.splits)
  from each_version_pages_item[OF e] so show ?thesis
    by (simp add: rendered_endpoints_def)
qed

lemma each_item_all2:
  assumes "\<And>item s item' s'. f item s = Inr (item', s') \<Longrightarrow> P item item'"
  shows "each_item f docs s = Inr (docs', s') \<Longrightarrow> list_all2 P docs docs'"
proof (induction docs arbitrary: s docs')
  case Nil
  then show ?case by simp
next
  case (Cons d ds)
  from Cons.prems obtain d1 s1 ds1
    where "f d s = Inr (d1, s1)" "each_item f ds s1 = Inr (ds1, s')" "docs' = d1 # ds1"
    by (auto split: sum.splits prod.splits)
  with Cons.IH assms show ?case by auto
qed

text \<open>
  C10, as stated: after a per-resource branch every processed document's \<^verbatim>\<open>resources\<close>
  field is a singleton array. A document without resources is processed and keeps its
  empty \<^verbatim>\<open>resources\<close> array: no page is rendered for it and the field is never assigned.
\<close>

theorem render_keeps_empty_resources:
  "render code_unit_order (demo_env empty_doc) (demo_output File OnePerResource None) demo_world
   = Inr (None, demo_world, [empty_doc])
   \<and> resources empty_doc = Some []"
  by (simp add: render_eval parse_eval empty_doc_def)

text \<open>
  C10, amended: when a per-resource branch finishes, every document for which at least
  one resource was rendered has a \<^verbatim>\<open>resources\<close> field equal to the singleton array of
  the last resource rendered for it, the list it had before having been overwritten; a
  document for which no resource was rendered keeps its field (in the versioning branch,
  with the nested resources of its version groups sorted). In the OnePerResource branch
  the rendered resources are the document's top-level resources, in the
  OnePerResourceVersioning branch the nested resources of its version groups.
\<close>

theorem dispatch_leaves_last_resource:
  assumes "dispatch env config docs w = Inr (r, w', docs')"
    and "output_type config = File"
  shows "(output_file_splitting config = OnePerResource \<longrightarrow>
            list_all2
              (\<lambda>item item'.
                  (elements (resources item) = [] \<longrightarrow> item' = item)
                  \<and> (elements (resources item) \<noteq> [] \<longrightarrow>
                       resources item' = Some [last (elements (resources item))]))
              docs docs')
         \<and> (output_file_splitting config = OnePerResourceVersioning \<longrightarrow>
            list_all2
              (\<lambda>item item'. \<exists>sorted.
                  sort_versions item = Inr sorted
                  \<and> (rendered_endpoints sorted = [] \<longrightarrow> item' = sorted)
                  \<and> (rendered_endpoints sorted \<noteq> [] \<longrightarrow>
                       resources item' = Some [last (rendered_endpoints sorted)]))
              docs docs')"
proof (intro conjI impI)
  assume sp: "output_file_splitting config = OnePerResource"
  let ?f = "one_per_resource env (path_resolve (cwd env) (input_templateFile config))
              (output_contentFilter config)
              (map_option (path_resolve (cwd env)) (output_file_path config))
              (output_file_extension config)"
  from assms sp obtain s' where e: "each_item ?f docs (w_fs w) = Inr (docs', s')"
    by (auto simp: dispatch_def Let_def split: sum.splits)
  show "list_all2
              (\<lambda>item item'.
                  (elements (resources item) = [] \<longrightarrow> item' = item)
                  \<and> (elements (resources item) \<noteq> [] \<longrightarrow>
                       resources item' = Some [last (elements (resources item))]))
              docs docs'"
  proof (rule each_item_all2[OF _ e])
    fix item s item' s1
    assume "?f item s = Inr (item', s1)"
    from one_per_resource_item[OF this]
    show "(elements (resources item) = [] \<longrightarrow> item' = item)
          \<and> (elements (resources item) \<noteq> [] \<longrightarrow>
               resources item' = Some [last (elements (resources item))])"
      by simp
  qed
next
  assume sp: "output_file_splitting config = OnePerResourceVersioning"
  let ?f = "one_per_resource_versioning env (path_resolve (cwd env) (input_templateFile config))
              (input_homeTemplateFile config) (output_contentFilter config)
              (map_option (path_resolve (cwd env)) (output_file_path config))
              (output_file_extension config)"
  from assms sp obtain s' where e: "each_item ?f docs (w_fs w) = Inr (docs', s')"
    by (auto simp: dispatch_def Let_def split: sum.splits)
  show "list_all2
              (\<lambda>item item'. \<exists>sorted.
                  sort_versions item = Inr sorted
                  \<and> (rendered_endpoints sorted = [] \<longrightarrow> item' = sorted)
                  \<and> (rendered_endpoints sorted \<noteq> [] \<longrightarrow>
                       resources item' = Some [last (rendered_endpoints sorted)]))
              docs docs'"
  proof (rule each_item_all2[OF _ e])
    fix item s item' s1
    assume "?f item s = Inr (item', s1)"
    from one_per_resource_versioning_item[OF this]
    show "\<exists>sorted.
                  sort_versions item = Inr sorted
                  \<and> (rendered_endpoints sorted = [] \<longrightarrow> item' = sorted)
                  \<and> (rendered_endpoints sorted \<noteq> [] \<longrightarrow>
                       resources item' = Some [last (rendered_endpoints sorted)])"
      by auto
  qed
qed

theorem dispatch_leaves_last_resource_witness:
  "(\<exists>r w'. dispatch (demo_env versioned_doc)
              (extend_config (DefaultConfig ''/lib'') (demo_output File OnePerResourceVersioning None))
              [versioned_doc] demo_world
            = Inr (r, w', [after_versioning]))
   \<and> resources after_versioning
       = Some [Node ''/groups'' (Some ''v1_groups'') (Some []) None None None None None]
   \<and> (\<exists>r w'. dispatch (demo_env versioned_doc)
              (extend_config (DefaultConfig ''/lib'') (demo_output File OnePerResource None))
              [versioned_doc] demo_world
            = Inr (r, w', [after_one_per_resource]))
   \<and> resources after_one_per_resource = resources versioned_doc"
proof -
  let ?c1 = "extend_config (DefaultConfig ''/lib'') (demo_output File OnePerResourceVersioning None)"
  let ?c2 = "extend_config (DefaultConfig ''/lib'') (demo_output File OnePerResource None)"
  have d1: "\<exists>r w'. dispatch (demo_env versioned_doc) ?c1 [versioned_doc] demo_world
                   = Inr (r, w', [after_versioning])"
    by (simp add: render_eval parse_eval versioned_doc_def after_versioning_def)
  have d2: "\<exists>r w'. dispatch (demo_env versioned_doc) ?c2 [versioned_doc] demo_world
                   = Inr (r, w', [after_one_per_resource])"
    by (simp add: render_eval parse_eval versioned_doc_def after_one_per_resource_def)
  have t1: "output_type ?c1 = File" "output_file_splitting ?c1 = OnePerResourceVersioning"
    and t2: "output_type ?c2 = File" "output_file_splitting ?c2 = OnePerResource"
    by (simp_all add: extend_config_def demo_output_def)
  have sv: "sort_versions versioned_doc = Inr versioned_doc"
    by (simp add: render_eval versioned_doc_def js_sort_def)
  have re: "rendered_endpoints versioned_doc
            = [Node ''/users'' (Some ''v1_users'') (Some []) None None None None None,
               Node ''/groups'' (Some ''v1_groups'') (Some []) None None None None None]"
    by (simp add: rendered_endpoints_def elements_def versioned_doc_def)
  from d1 obtain r1 w1
    where "dispatch (demo_env versioned_doc) ?c1 [versioned_doc] demo_world
           = Inr (r1, w1, [after_versioning])"
    by blast
  from dispatch_leaves_last_resource[OF this t1(1)] t1(2) sv re
  have 1: "resources after_versioning
           = Some [Node ''/groups'' (Some ''v1_groups'') (Some []) None None None None None]"
    by simp
  from d2 obtain r2 w2
    where "dispatch (demo_env versioned_doc) ?c2 [versioned_doc] demo_world
           = Inr (r2, w2, [after_one_per_resource])"
    by blast
  from dispatch_leaves_last_resource[OF this t2(1)] t2(2)
  have 2: "resources after_one_per_resource = resources versioned_doc"
    by (simp add: elements_def versioned_doc_def)
  from d1 d2 1 2 show ?thesis by blast
qed


subsection \<open>The sorting loop of the versioning branch\<close>

lemma insert_by_first_char:
  assumes "displayName x \<noteq> []" "\<forall>y\<in>set ys. displayName y \<noteq> []"
  shows "insert_by first_char_compare x ys = insort_key (\<lambda>e. hd (displayName e)) x ys"
  using assms
proof (induction ys)
  case Nil
  then show ?case by simp
next
  case (Cons y ys)
  from Cons.prems obtain c cs d ds where n: "displayName x = c # cs" "displayName y = d # ds"
    by (cases "displayName x"; cases "displayName y") auto
  have "first_char_compare x y \<le> 0 \<longleftrightarrow> c \<le> d"
    using n by (auto simp: first_char_compare_def first_char_def js_less_def)
  with Cons n show ?case by simp
qed

lemma js_sort_first_char:
  assumes "\<forall>y\<in>set xs. displayName y \<noteq> []"
  shows "js_sort first_char_compare xs = sort_key (\<lambda>e. hd (displayName e)) xs"
  using assms
proof (induction xs)
  case Nil
  then show ?case by (simp add: js_sort_def)
next
  case (Cons x xs)
  then have "js_sort first_char_compare xs = sort_key (\<lambda>e. hd (displayName e)) xs" by simp
  moreover have "insert_by first_char_compare x (sort_key (\<lambda>e. hd (displayName e)) xs)
                 = insort_key (\<lambda>e. hd (displayName e)) x (sort_key (\<lambda>e. hd (displayName e)) xs)"
    using Cons.prems by (intro insert_by_first_char) simp_all
  ultimately show ?case by (simp add: js_sort_def sort_key_def)
qed

lemma first_char_hd: "displayName e \<noteq> [] \<Longrightarrow> first_char e = Some (hd (displayName e))"
  by (cases "displayName e") (simp_all add: first_char_def)

lemma sorted_by_first_char_sort_key:
  assumes "\<forall>y\<in>set xs. displayName y \<noteq> []"
  shows "sorted_by_first_char (sort_key (\<lambda>e. hd (displayName e)) xs)"
proof -
  have "sorted (map (\<lambda>e. hd (displayName e)) (sort_key (\<lambda>e. hd (displayName e)) xs))"
    by simp
  then have "sorted_wrt (\<lambda>a b. hd (displayName a) \<le> hd (displayName b))
               (sort_key (\<lambda>e. hd (displayName e)) xs)"
    by (simp add: sorted_map)
  then show ?thesis
    unfolding sorted_by_first_char_def
  proof (rule sorted_wrt_mono_rel[rotated])
    fix a b
    assume "a \<in> set (sort_key (\<lambda>e. hd (displayName e)) xs)"
      "b \<in> set (sort_key (\<lambda>e. hd (displayName e)) xs)"
      "hd (displayName a) \<le> hd (displayName b)"
    with assms show "\<not> js_less (first_char b) (first_char a)"
      by (auto simp: first_char_hd js_less_def)
  qed
qed

lemma filter_first_char_sort_key:
  assumes "\<forall>y\<in>set xs. displayName y \<noteq> []"
  shows "filter (\<lambda>e. first_char e = c) (sort_key (\<lambda>e. hd (displayName e)) xs)
         = filter (\<lambda>e. first_char e = c) xs"
proof (cases c)
  case None
  have "filter (\<lambda>e. first_char e = c) ys = []" if "\<forall>y\<in>set ys. displayName y \<noteq> []" for ys
    using that None by (induction ys) (auto simp: first_char_hd)
  from this[of xs] this[of "sort_key (\<lambda>e. hd (displayName e)) xs"] assms show ?thesis by simp
next
  case (Some d)
  have eq: "filter (\<lambda>e. first_char e = c) ys = filter (\<lambda>e. hd (displayName e) = d) ys"
    if "\<forall>y\<in>set ys. displayName y \<noteq> []" for ys
    using that Some by (intro filter_cong) (auto simp: first_char_hd)
  from eq[of xs] eq[of "sort_key (\<lambda>e. hd (displayName e)) xs"] assms
  show ?thesis by (simp add: sort_key_stable)
qed

text \<open>
  C6, as stated: every non-empty nested collection is sorted ascending by the first
  character of \<^verbatim>\<open>displayName\<close> before any file is written. Two inputs show otherwise.
  A resource with an empty \<^verbatim>\<open>displayName\<close> has no first character and compares equal
  to every other one: in the group \<^verbatim>\<open>b\<close>, (empty), \<^verbatim>\<open>a\<close> every comparison between
  neighbours is 0 and the group stays as it is. With two documents, the pages of the
  first are in the file system (\<open>first_written\<close>) when the callback of the second, which
  is still unsorted then, starts.
\<close>

theorem versioning_sort_counterexample:
  "sort_version unnamed_group = unnamed_group
   \<and> resources unnamed_group = Some [endpoint ''b'', endpoint [], endpoint ''a'']
   \<and> \<not> sorted_by_first_char [endpoint ''b'', endpoint [], endpoint ''a'']
   \<and> demo_versioning versioned_doc (w_fs demo_world) = Inr (after_versioning, first_written)
   \<and> fs_files first_written [''out'', ''users_v1.md''] = Some ''templates/index.njk|API:/users''
   \<and> sort_versions unsorted_doc = Inr sorted_doc
   \<and> sorted_doc \<noteq> unsorted_doc
   \<and> demo_versioning unsorted_doc first_written = Inr (after_unsorted, second_written)
   \<and> each_item demo_versioning [versioned_doc, unsorted_doc] (w_fs demo_world)
       = Inr ([after_versioning, after_unsorted], second_written)"
proof -
  have 1: "sort_version unnamed_group = unnamed_group"
    by (simp add: sort_version_def unnamed_group_def endpoint_def js_sort_def
        first_char_compare_def first_char_def js_less_def)
  have 2: "\<not> sorted_by_first_char [endpoint ''b'', endpoint [], endpoint ''a'']"
    by (simp add: sorted_by_first_char_def endpoint_def first_char_def js_less_def)
  have 3: "demo_versioning versioned_doc (w_fs demo_world) = Inr (after_versioning, first_written)"
    by (simp add: demo_versioning_def render_eval demo_env_def versioned_doc_def js_sort_def
        after_versioning_def first_written_def)
  have 4: "sort_versions unsorted_doc = Inr sorted_doc"
    by (simp add: sort_versions_def sort_version_def unsorted_doc_def sorted_doc_def endpoint_def
        js_sort_def first_char_compare_def first_char_def js_less_def)
  have 5: "sorted_doc \<noteq> unsorted_doc"
    by (simp add: unsorted_doc_def sorted_doc_def endpoint_def)
  have 9: "demo_versioning unsorted_doc first_written = Inr (after_unsorted, second_written)"
    by (simp add: demo_versioning_def render_eval demo_env_def unsorted_doc_def endpoint_def
        js_sort_def after_unsorted_def first_written_def second_written_def)
  have 6: "each_item demo_versioning [versioned_doc, unsorted_doc] (w_fs demo_world)
       = Inr ([after_versioning, after_unsorted], second_written)"
    by (simp add: 3 9)
  have 7: "fs_files first_written [''out'', ''users_v1.md''] = Some ''templates/index.njk|API:/users''"
    by (simp add: first_written_def)
  have 8: "resources unnamed_group = Some [endpoint ''b'', endpoint [], endpoint ''a'']"
    by (simp add: unnamed_group_def)
  from 1 2 3 4 5 6 7 8 9 show ?thesis by blast
qed

text \<open>
  C6, amended: in the OnePerResourceVersioning branch, for every document and every
  version group in its top-level resources that has a non-empty nested resources
  collection whose resources all have a non-empty \<^verbatim>\<open>displayName\<close>, that collection is
  sorted in place ascending by the first character of each \<^verbatim>\<open>displayName\<close>, resources
  with the same first character keeping their relative order, before any file of that
  document is written: the home page and the pages of the document are written from the
  document with its groups sorted.
\<close>

theorem versioning_sorts_endpoints:
  "(resources version = Some eps \<and> eps \<noteq> [] \<and> (\<forall>e\<in>set eps. displayName e \<noteq> []) \<longrightarrow>
      (\<exists>eps'. resources (sort_version version) = Some eps'
         \<and> sorted_by_first_char eps'
         \<and> mset eps' = mset eps
         \<and> (\<forall>c. filter (\<lambda>e. first_char e = c) eps' = filter (\<lambda>e. first_char e = c) eps)))
   \<and> (resources item = Some versions \<longrightarrow>
        sort_versions item = Inr (set_resources (Some (map sort_version versions)) item))
   \<and> (one_per_resource_versioning env t h cf out ext item s = Inr (item', s') \<longrightarrow>
        (\<exists>versions. resources item = Some versions
           \<and> versioning_pages env t h cf out ext
                (set_resources (Some (map sort_version versions)) item) s
              = Inr (item', s')))"
proof (intro conjI impI)
  assume a: "resources version = Some eps \<and> eps \<noteq> [] \<and> (\<forall>e\<in>set eps. displayName e \<noteq> [])"
  let ?eps' = "sort_key (\<lambda>e. hd (displayName e)) eps"
  from a have n: "\<forall>e\<in>set eps. displayName e \<noteq> []" by simp
  from a have "resources (sort_version version) = Some ?eps'"
    by (simp add: sort_version_def js_sort_first_char[OF n])
  moreover have "sorted_by_first_char ?eps'" by (rule sorted_by_first_char_sort_key[OF n])
  moreover have "mset ?eps' = mset eps" by simp
  moreover have "\<forall>c. filter (\<lambda>e. first_char e = c) ?eps' = filter (\<lambda>e. first_char e = c) eps"
    using filter_first_char_sort_key[OF n] by simp
  ultimately show "\<exists>eps'. resources (sort_version version) = Some eps'
         \<and> sorted_by_first_char eps'
         \<and> mset eps' = mset eps
         \<and> (\<forall>c. filter (\<lambda>e. first_char e = c) eps' = filter (\<lambda>e. first_char e = c) eps)"
    by blast
next
  assume "resources item = Some versions"
  then show "sort_versions item = Inr (set_resources (Some (map sort_version versions)) item)"
    by (simp add: sort_versions_def)
next
  assume "one_per_resource_versioning env t h cf out ext item s = Inr (item', s')"
  then show "\<exists>versions. resources item = Some versions
           \<and> versioning_pages env t h cf out ext
                (set_resources (Some (map sort_version versions)) item) s
              = Inr (item', s')"
    by (auto simp: one_per_resource_versioning_def sort_versions_def
        split: sum.splits option.splits)
qed

theorem versioning_sorts_endpoints_witness:
  "resources (sort_version (Node ''/v2'' (Some ''v2'') (Some []) None
                (Some [endpoint ''zeta'', endpoint ''beta'', endpoint ''alpha'', endpoint ''zoo''])
                None None None))
   = Some [endpoint ''alpha'', endpoint ''beta'', endpoint ''zeta'', endpoint ''zoo'']
   \<and> sorted_by_first_char [endpoint ''alpha'', endpoint ''beta'', endpoint ''zeta'', endpoint ''zoo'']
   \<and> demo_versioning unsorted_doc (w_fs demo_world)
       = versioning_pages (demo_env versioned_doc) [''templates'', ''index.njk''] None None
           (Some [''out'']) ''.md'' sorted_doc (w_fs demo_world)"
proof -
  let ?eps = "[endpoint ''zeta'', endpoint ''beta'', endpoint ''alpha'', endpoint ''zoo'']"
  let ?v = "Node ''/v2'' (Some ''v2'') (Some []) None (Some ?eps) None None None"
  have r: "resources (sort_version ?v)
           = Some [endpoint ''alpha'', endpoint ''beta'', endpoint ''zeta'', endpoint ''zoo'']"
    by (simp add: sort_version_def endpoint_def js_sort_def first_char_compare_def
        first_char_def js_less_def)
  have h: "resources ?v = Some ?eps \<and> ?eps \<noteq> [] \<and> (\<forall>e\<in>set ?eps. displayName e \<noteq> [])"
    by (simp add: endpoint_def)
  from versioning_sorts_endpoints[of ?v ?eps] h r
  have 1: "sorted_by_first_char [endpoint ''alpha'', endpoint ''beta'', endpoint ''zeta'', endpoint ''zoo'']"
    by auto
  have 2: "demo_versioning unsorted_doc (w_fs demo_world)
       = versioning_pages (demo_env versioned_doc) [''templates'', ''index.njk''] None None
           (Some [''out'']) ''.md'' sorted_doc (w_fs demo_world)"
    by (simp add: demo_versioning_def one_per_resource_versioning_def sort_versions_def
        sort_version_def unsorted_doc_def sorted_doc_def endpoint_def js_sort_def
        first_char_compare_def first_char_def js_less_def)
  from r 1 2 show ?thesis by simp
qed

subsection \<open>The files of the versioning branch\<close>

lemma uniqueId_set_resources [simp]: "uniqueId (set_resources v item) = uniqueId item"
  by (cases item) simp







end
